theory Spec2Isabelle
  imports Main
begin

section \<open>Python values and exceptions\<close>

text \<open>
  The account data, the tool arguments and the tool results are JSON-shaped Python
  values. A float is given by its exact value \<open>m * 2 ^ e\<close> (mantissa and binary
  exponent), so that every computation on it is integer arithmetic; the non-finite
  floats and the negative zero are outside the model. A dictionary is an association
  list in insertion order with distinct keys, as \<open>json.load\<close> builds it.
\<close>

datatype pyval =
    PNone
  | PBool bool
  | PInt int
  | PFloat int int
  | PStr string
  | PList "pyval list"
  | PDict "(string \<times> pyval) list"

type_synonym pydict = "(string \<times> pyval) list"

datatype exn =
    JSONDecodeError
  | KeyError string
  | TypeError
  | ValueError
  | OverflowError
  | UnboundLocalError string
  | UpstreamFailure string

text \<open>Sequencing of computations that may raise: the first exception wins.\<close>

definition and_then :: "exn + 'a \<Rightarrow> ('a \<Rightarrow> exn + 'b) \<Rightarrow> exn + 'b" where
  "and_then r f = (case r of Inl e \<Rightarrow> Inl e | Inr x \<Rightarrow> f x)"

text \<open>The numeric value of a bool, an int or a float, as mantissa and exponent.\<close>

definition num_val :: "pyval \<Rightarrow> (int \<times> int) option" where
  "num_val v =
     (case v of
        PBool b \<Rightarrow> Some (if b then 1 else 0, 0)
      | PInt n \<Rightarrow> Some (n, 0)
      | PFloat m e \<Rightarrow> Some (m, e)
      | _ \<Rightarrow> None)"

definition dyadic_eq :: "int \<times> int \<Rightarrow> int \<times> int \<Rightarrow> bool" where
  "dyadic_eq a b =
     (case (a, b) of
        ((m1, e1), (m2, e2)) \<Rightarrow>
          (if e1 \<le> e2 then m1 = m2 * 2 ^ nat (e2 - e1)
           else m1 * 2 ^ nat (e1 - e2) = m2))"

text \<open>
  Python's \<open>==\<close> on JSON-shaped values: numbers compare by value across bool, int
  and float; strings, lists and dictionaries compare by content, a dictionary
  regardless of the order of its keys; values of different kinds are unequal.
\<close>

fun py_eq :: "pyval \<Rightarrow> pyval \<Rightarrow> bool"
  and py_eq_list :: "pyval list \<Rightarrow> pyval list \<Rightarrow> bool"
  and py_eq_items :: "pydict \<Rightarrow> pydict \<Rightarrow> bool" where
  "py_eq (PStr a) w = (w = PStr a)"
| "py_eq PNone w = (w = PNone)"
| "py_eq (PList xs) w = (case w of PList ys \<Rightarrow> py_eq_list xs ys | _ \<Rightarrow> False)"
| "py_eq (PDict a) w =
     (case w of PDict b \<Rightarrow> length a = length b \<and> py_eq_items a b | _ \<Rightarrow> False)"
| "py_eq v w =
     (case (num_val v, num_val w) of
        (Some x, Some y) \<Rightarrow> dyadic_eq x y
      | _ \<Rightarrow> False)"
| "py_eq_list [] ys = (ys = [])"
| "py_eq_list (x # xs) ys =
     (case ys of [] \<Rightarrow> False | y # ys' \<Rightarrow> py_eq x y \<and> py_eq_list xs ys')"
| "py_eq_items [] b = True"
| "py_eq_items ((k, v) # a) b =
     (case map_of b k of None \<Rightarrow> False | Some w \<Rightarrow> py_eq v w \<and> py_eq_items a b)"

text \<open>\<open>d.get(key, default)\<close> with a string literal as key.\<close>

definition dict_get :: "pydict \<Rightarrow> string \<Rightarrow> pyval \<Rightarrow> pyval" where
  "dict_get d k dflt = (case map_of d k of None \<Rightarrow> dflt | Some v \<Rightarrow> v)"

text \<open>\<open>d[key]\<close> with a string literal as key, on a dictionary.\<close>

definition dict_item :: "pydict \<Rightarrow> string \<Rightarrow> exn + pyval" where
  "dict_item d k = (case map_of d k of None \<Rightarrow> Inl (KeyError k) | Some v \<Rightarrow> Inr v)"

text \<open>
  \<open>v[key]\<close> on an arbitrary value, as on the result of \<open>json.loads\<close>: only a
  dictionary can be subscripted by a string.
\<close>

definition subscript :: "pyval \<Rightarrow> string \<Rightarrow> exn + pyval" where
  "subscript v k = (case v of PDict d \<Rightarrow> dict_item d k | _ \<Rightarrow> Inl TypeError)"

text \<open>
  The functions of the Python library that the program calls and that are not
  modelled further: \<open>json.loads\<close> (\<open>None\<close> when it raises), \<open>json.dumps\<close>, and
  \<open>str\<close> on a value that is not a string.
\<close>

record pylib =
  json_loads :: "string \<Rightarrow> pyval option"
  json_dumps :: "pyval \<Rightarrow> string"
  repr :: "pyval \<Rightarrow> string"

definition py_str :: "pylib \<Rightarrow> pyval \<Rightarrow> string" where
  "py_str lib v = (case v of PStr s \<Rightarrow> s | _ \<Rightarrow> repr lib v)"

section \<open>The format specification \<open>,.2f\<close>\<close>

fun nat_digits :: "nat \<Rightarrow> string" where
  "nat_digits n =
     (if n < 10 then [''0123456789'' ! n]
      else nat_digits (n div 10) @ [''0123456789'' ! (n mod 10)])"

declare nat_digits.simps [simp del]

fun group3 :: "string \<Rightarrow> string" where
  "group3 ds =
     (if length ds \<le> 3 then ds
      else group3 (take (length ds - 3) ds) @ CHR '','' # drop (length ds - 3) ds)"

declare group3.simps [simp del]

fun bit_length :: "nat \<Rightarrow> nat" where
  "bit_length n = (if n = 0 then 0 else Suc (bit_length (n div 2)))"

declare bit_length.simps [simp del]

text \<open>
  \<open>float(n)\<close> for an int: exact up to 53 bits, otherwise rounded to 53 bits, to
  nearest and to even on a tie; \<open>OverflowError\<close> when the result is no double.
\<close>

definition int_to_float :: "int \<Rightarrow> exn + int \<times> int" where
  "int_to_float n =
     (let a = nat \<bar>n\<bar>; b = bit_length a in
      if b \<le> 53 then Inr (n, 0)
      else
        let s = b - 53; q = a div 2 ^ s; r = a mod 2 ^ s;
            q' = (if 2 * r > 2 ^ s \<or> (2 * r = 2 ^ s \<and> odd q) then q + 1 else q)
        in if q' * 2 ^ s \<ge> 2 ^ 1024 then Inl OverflowError
           else Inr ((if n < 0 then - int q' else int q'), int s))"

text \<open>The hundredths of \<open>\<bar>m\<bar> * 2 ^ e\<close>, rounded to nearest, to even on a tie.\<close>

definition round_cents :: "int \<Rightarrow> int \<Rightarrow> nat" where
  "round_cents m e =
     (let a = nat \<bar>m\<bar> * 100 in
      if 0 \<le> e then a * 2 ^ nat e
      else
        let d = 2 ^ nat (- e); q = a div d; r = a mod d in
        if 2 * r < d then q
        else if 2 * r > d then q + 1
        else if even q then q else q + 1)"

definition format_float_comma_2f :: "int \<Rightarrow> int \<Rightarrow> string" where
  "format_float_comma_2f m e =
     (let c = round_cents m e in
      (if m < 0 then ''-'' else '''') @ group3 (nat_digits (c div 100)) @ ''.''
        @ [''0123456789'' ! (c div 10 mod 10), ''0123456789'' ! (c mod 10)])"

text \<open>
  \<open>format(v, ",.2f")\<close>: a float is formatted as it is, an int or a bool is converted
  to a float first; a string raises \<open>ValueError\<close>, every other value \<open>TypeError\<close>.
\<close>

definition float_for_format :: "pyval \<Rightarrow> exn + int \<times> int" where
  "float_for_format v =
     (case v of
        PFloat m e \<Rightarrow> Inr (m, e)
      | PInt n \<Rightarrow> int_to_float n
      | PBool b \<Rightarrow> Inr (if b then 1 else 0, 0)
      | PStr s \<Rightarrow> Inl ValueError
      | _ \<Rightarrow> Inl TypeError)"

definition format_comma_2f :: "pyval \<Rightarrow> exn + string" where
  "format_comma_2f v =
     and_then (float_for_format v) (\<lambda>(m, e). Inr (format_float_comma_2f m e))"

section \<open>MockDataLoader\<close>

text \<open>
  The loaded JSON document: three collections keyed by strings, each entry a
  dictionary. A collection that the document lacks is the empty one, as
  \<open>self.data.get("accounts", {})\<close> makes it.
\<close>

record mock_data =
  accounts :: "(string \<times> pydict) list"
  account_types :: "(string \<times> pydict) list"
  currencies :: "(string \<times> pydict) list"

text \<open>
  \<open>table.get(key, {})\<close> with a key that is any value: a list or a dictionary is
  unhashable and raises \<open>TypeError\<close>; a key that is no string equals no key of the
  table.
\<close>

definition table_get :: "(string \<times> pydict) list \<Rightarrow> pyval \<Rightarrow> exn + pydict" where
  "table_get t k =
     (case k of
        PStr s \<Rightarrow> Inr (case map_of t s of None \<Rightarrow> [] | Some a \<Rightarrow> a)
      | PList xs \<Rightarrow> Inl TypeError
      | PDict d \<Rightarrow> Inl TypeError
      | _ \<Rightarrow> Inr [])"

definition get_account :: "mock_data \<Rightarrow> pyval \<Rightarrow> exn + pydict" where
  "get_account md account_number = table_get (accounts md) account_number"

definition get_account_type_details :: "mock_data \<Rightarrow> pyval \<Rightarrow> exn + pydict" where
  "get_account_type_details md account_type = table_get (account_types md) account_type"

definition get_currency_details :: "mock_data \<Rightarrow> pyval \<Rightarrow> exn + pydict" where
  "get_currency_details md currency_code = table_get (currencies md) currency_code"

definition validate_account_and_pin :: "mock_data \<Rightarrow> pyval \<Rightarrow> pyval \<Rightarrow> exn + bool" where
  "validate_account_and_pin md account_number pin =
     and_then (get_account md account_number)
       (\<lambda>account. Inr (py_eq (dict_get account ''pin'' PNone) pin))"

definition get_formatted_balance :: "pylib \<Rightarrow> mock_data \<Rightarrow> pyval \<Rightarrow> exn + string" where
  "get_formatted_balance lib md account_number =
     and_then (get_account md account_number)
       (\<lambda>account.
          if account = [] then Inr ''Account not found''
          else
            and_then (get_currency_details md (dict_get account ''currency'' (PStr ''USD'')))
              (\<lambda>currency.
                 let symbol = dict_get currency ''symbol'' (PStr ''$'') in
                 and_then (format_comma_2f (dict_get account ''balance'' (PInt 0)))
                   (\<lambda>digits. Inr (py_str lib symbol @ digits))))"

section \<open>The tools of AsyncBankingChatbot\<close>

definition validate_account_number :: "mock_data \<Rightarrow> pyval \<Rightarrow> exn + pyval" where
  "validate_account_number md account_number =
     and_then (get_account md account_number)
       (\<lambda>account.
          let is_valid = (account \<noteq> []) in
          Inr (PDict
            [(''valid'', PBool is_valid),
             (''message'', PStr (if is_valid then ''Account found'' else ''Account not found'')),
             (''account_status'',
                if is_valid then dict_get account ''account_status'' PNone else PNone)]))"

definition validate_pin :: "mock_data \<Rightarrow> pyval \<Rightarrow> pyval \<Rightarrow> exn + pyval" where
  "validate_pin md account_number pin =
     and_then (validate_account_and_pin md account_number pin)
       (\<lambda>is_valid.
          Inr (PDict
            [(''valid'', PBool is_valid),
             (''message'', PStr (if is_valid then ''PIN validated'' else ''Invalid PIN''))]))"

definition account_features :: "pydict \<Rightarrow> pyval" where
  "account_features account_type_details =
     PDict
       [(''daily_withdrawal_limit'', dict_get account_type_details ''daily_withdrawal_limit'' PNone),
        (''minimum_balance'', dict_get account_type_details ''minimum_balance'' PNone),
        (''interest_rate'', dict_get account_type_details ''interest_rate'' PNone),
        (''monthly_fee'', dict_get account_type_details ''monthly_fee'' PNone),
        (''term_length'', dict_get account_type_details ''term_length'' PNone)]"

text \<open>
  The dictionary display of the success result evaluates its entries in the order
  written, so the first missing key or failing call decides the exception.
\<close>

definition balance_view :: "pylib \<Rightarrow> mock_data \<Rightarrow> pyval \<Rightarrow> pydict \<Rightarrow> pydict \<Rightarrow> exn + pyval" where
  "balance_view lib md account_number account account_type_details =
     and_then (dict_item account ''balance'') (\<lambda>balance.
     and_then (dict_item account ''currency'') (\<lambda>currency.
     and_then (dict_item account ''account_type'') (\<lambda>account_type.
     and_then (get_formatted_balance lib md account_number) (\<lambda>formatted_balance.
     and_then (dict_item account ''account_holder'') (\<lambda>account_holder.
     and_then (dict_item account ''account_status'') (\<lambda>account_status.
     and_then (dict_item account ''last_transaction'') (\<lambda>last_transaction.
       Inr (PDict
         [(''balance'', balance),
          (''currency'', currency),
          (''account_type'', account_type),
          (''formatted_balance'', PStr formatted_balance),
          (''account_holder'', account_holder),
          (''account_status'', account_status),
          (''last_transaction'', last_transaction),
          (''account_features'', account_features account_type_details)]))))))))"

definition get_account_balance :: "pylib \<Rightarrow> mock_data \<Rightarrow> pyval \<Rightarrow> pyval \<Rightarrow> exn + pyval" where
  "get_account_balance lib md account_number pin =
     and_then (validate_account_and_pin md account_number pin)
       (\<lambda>ok.
          if \<not> ok then
            Inr (PDict [(''status'', PStr ''error''), (''message'', PStr ''Invalid credentials'')])
          else
            and_then (get_account md account_number)
              (\<lambda>account.
                 if account = [] then
                   Inr (PDict [(''status'', PStr ''error''), (''message'', PStr ''Account not found'')])
                 else
                   and_then (dict_item account ''account_type'') (\<lambda>account_type.
                   and_then (get_account_type_details md account_type) (\<lambda>account_type_details.
                   and_then (balance_view lib md account_number account account_type_details)
                     (\<lambda>data. Inr (PDict [(''status'', PStr ''success''), (''data'', data)]))))))"

section \<open>Messages, sessions and the completion service\<close>

record tool_call =
  tc_id :: string
  tc_name :: string
  tc_arguments :: string

datatype role = System | User | Assistant | Tool

text \<open>
  A message of the history is a dictionary with the key \<open>role\<close> and some of
  \<open>content\<close>, \<open>tool_calls\<close> and \<open>tool_call_id\<close>. A key that a message lacks and a
  \<open>content\<close> that is \<open>None\<close> are both \<open>None\<close> here.
\<close>

record message =
  role :: role
  content :: "string option"
  tool_calls :: "tool_call list option"
  tool_call_id :: "string option"

definition system_message :: "string \<Rightarrow> message" where
  "system_message c = \<lparr>role = System, content = Some c, tool_calls = None, tool_call_id = None\<rparr>"

definition user_message :: "string \<Rightarrow> message" where
  "user_message c = \<lparr>role = User, content = Some c, tool_calls = None, tool_call_id = None\<rparr>"

definition assistant_call_message :: "tool_call list \<Rightarrow> message" where
  "assistant_call_message tcs =
     \<lparr>role = Assistant, content = None, tool_calls = Some tcs, tool_call_id = None\<rparr>"

definition tool_message :: "string \<Rightarrow> string \<Rightarrow> message" where
  "tool_message i c = \<lparr>role = Tool, content = Some c, tool_calls = None, tool_call_id = Some i\<rparr>"

definition assistant_message :: "string option \<Rightarrow> message" where
  "assistant_message c = \<lparr>role = Assistant, content = c, tool_calls = None, tool_call_id = None\<rparr>"

definition system_prompt :: string where
  "system_prompt =
     ''You are a banking assistant that helps users check their account information. If an user speaks in Bengali, you reply in Bengali. Always reply in Bengali, but never use emojis. And Be concise and succinct.'' @
     ''\<newline>                Follow a strict flow:'' @
     ''\<newline>                1. Ask for account number first'' @
     ''\<newline>                2. Then ask for PIN'' @
     ''\<newline>                3. Then provide detailed account information including:'' @
     ''\<newline>                   - Current balance with currency symbol'' @
     ''\<newline>                   - Account type and its features'' @
     ''\<newline>                   - Account status'' @
     ''\<newline>                   - Last transaction date'' @
     ''\<newline>                   - Account holder name'' @
     ''\<newline>                '' @
     ''\<newline>                Be professional but friendly. Use the provided functions to validate all information.'' @
     ''\<newline>                If an account is frozen, warn the user appropriately.''"

definition get_initial_conversation :: "message list" where
  "get_initial_conversation = [system_message system_prompt]"

text \<open>
  The completion service is an opaque collaborator: a request names the model, carries
  the history and the names of the tools offered (none on the follow-up call); the
  answer is the message of the first choice, or an exception. A reply has a
  \<open>content\<close> and a \<open>tool_calls\<close> attribute, each possibly \<open>None\<close>.
\<close>

record request =
  req_model :: string
  req_messages :: "message list"
  req_tools :: "string list"

record reply =
  reply_content :: "string option"
  reply_tool_calls :: "tool_call list option"

definition offered_tools :: "string list" where
  "offered_tools = [''validate_account_number'', ''validate_pin'', ''get_account_balance'']"

record chatbot =
  client :: "request \<Rightarrow> exn + reply"
  mock :: mock_data
  conversations :: "string \<rightharpoonup> message list"

section \<open>process\_message\<close>

text \<open>
  The \<open>if\<close>/\<open>elif\<close> chain over the tool name. Its result is the binding of the
  variable \<open>function_response\<close> after the chain: the result of the tool that ran, or,
  for a name that no branch matches, the binding it had before (\<open>None\<close> when the
  variable is still unbound).
\<close>

definition call_tool :: "pylib \<Rightarrow> mock_data \<Rightarrow> pyval option \<Rightarrow> string \<Rightarrow> pyval \<Rightarrow> exn + pyval option" where
  "call_tool lib md function_response function_name function_args =
     (if function_name = ''validate_account_number'' then
        and_then (subscript function_args ''account_number'') (\<lambda>a.
        and_then (validate_account_number md a) (\<lambda>r. Inr (Some r)))
      else if function_name = ''validate_pin'' then
        and_then (subscript function_args ''account_number'') (\<lambda>a.
        and_then (subscript function_args ''pin'') (\<lambda>p.
        and_then (validate_pin md a p) (\<lambda>r. Inr (Some r))))
      else if function_name = ''get_account_balance'' then
        and_then (subscript function_args ''account_number'') (\<lambda>a.
        and_then (subscript function_args ''pin'') (\<lambda>p.
        and_then (get_account_balance lib md a p) (\<lambda>r. Inr (Some r))))
      else Inr function_response)"

text \<open>The two messages that one iteration appends for a call and its result.\<close>

definition appended_for :: "pylib \<Rightarrow> tool_call \<Rightarrow> pyval \<Rightarrow> message list" where
  "appended_for lib tc function_response =
     [assistant_call_message [tc],
      tool_message (tc_id tc) (json_dumps lib function_response)]"

text \<open>
  The loop over the requested tool calls, on the history of the session. It returns
  the exception that ended it, if any, and the history as the loop left it. An
  exception of \<open>json.loads\<close> or of a tool is raised before anything is appended for
  that call; the unbound \<open>function_response\<close> is met when the tool message is built,
  after the assistant message of that call has been appended.
\<close>

fun run_tool_calls ::
  "pylib \<Rightarrow> mock_data \<Rightarrow> pyval option \<Rightarrow> message list \<Rightarrow> tool_call list
     \<Rightarrow> exn option \<times> message list" where
  "run_tool_calls lib md function_response history [] = (None, history)"
| "run_tool_calls lib md function_response history (tc # rest) =
     (case json_loads lib (tc_arguments tc) of
        None \<Rightarrow> (Some JSONDecodeError, history)
      | Some function_args \<Rightarrow>
          (case call_tool lib md function_response (tc_name tc) function_args of
             Inl e \<Rightarrow> (Some e, history)
           | Inr None \<Rightarrow>
               (Some (UnboundLocalError ''function_response''),
                history @ [assistant_call_message [tc]])
           | Inr (Some r) \<Rightarrow>
               run_tool_calls lib md (Some r) (history @ appended_for lib tc r) rest))"

text \<open>Truth value of \<open>assistant_message.tool_calls\<close>: neither \<open>None\<close> nor empty.\<close>

definition requested :: "reply \<Rightarrow> tool_call list" where
  "requested r = (case reply_tool_calls r of None \<Rightarrow> [] | Some tcs \<Rightarrow> tcs)"

text \<open>The history of a session, seeded when the identifier is new.\<close>

definition history_of :: "chatbot \<Rightarrow> string \<Rightarrow> message list" where
  "history_of self session_id =
     (case conversations self session_id of
        None \<Rightarrow> get_initial_conversation
      | Some h \<Rightarrow> h)"

definition store :: "chatbot \<Rightarrow> string \<Rightarrow> message list \<Rightarrow> chatbot" where
  "store self session_id history =
     self\<lparr>conversations := (conversations self)(session_id \<mapsto> history)\<rparr>"

text \<open>
  One turn. The result is the returned text (\<open>None\<close> for a null content) or the
  exception raised, together with the chatbot, whose histories keep whatever was
  appended before an exception.
\<close>

definition process_message ::
  "pylib \<Rightarrow> chatbot \<Rightarrow> string \<Rightarrow> string \<Rightarrow> (exn + string option) \<times> chatbot" where
  "process_message lib self session_id user_input =
     (let h1 = history_of self session_id @ [user_message user_input] in
      case client self \<lparr>req_model = ''gpt-4o'', req_messages = h1, req_tools = offered_tools\<rparr> of
        Inl e \<Rightarrow> (Inl e, store self session_id h1)
      | Inr first \<Rightarrow>
          if requested first \<noteq> [] then
            (case run_tool_calls lib (mock self) None h1 (requested first) of
               (Some e, h2) \<Rightarrow> (Inl e, store self session_id h2)
             | (None, h2) \<Rightarrow>
                 (case client self \<lparr>req_model = ''gpt-4'', req_messages = h2, req_tools = []\<rparr> of
                    Inl e \<Rightarrow> (Inl e, store self session_id h2)
                  | Inr second \<Rightarrow>
                      (Inr (reply_content second),
                       store self session_id (h2 @ [assistant_message (reply_content second)]))))
          else
            (Inr (reply_content first),
             store self session_id (h1 @ [assistant_message (reply_content first)])))"

section \<open>The HTTP endpoints\<close>

datatype http_response = Ok200 pyval | Error500 exn

definition chat_endpoint ::
  "pylib \<Rightarrow> chatbot \<Rightarrow> string \<Rightarrow> string \<Rightarrow> http_response \<times> chatbot" where
  "chat_endpoint lib self session_id user_message_text =
     (case process_message lib self session_id user_message_text of
        (Inr response, self') \<Rightarrow>
          (Ok200 (PDict [(''response'', case response of None \<Rightarrow> PNone | Some s \<Rightarrow> PStr s)]), self')
      | (Inl e, self') \<Rightarrow> (Error500 e, self'))"

definition end_session :: "chatbot \<Rightarrow> string \<Rightarrow> http_response \<times> chatbot" where
  "end_session self session_id =
     (Ok200 (PDict [(''message'', PStr ''Session ended successfully'')]),
      (if conversations self session_id \<noteq> None
       then self\<lparr>conversations := (conversations self)(session_id := None)\<rparr>
       else self))"

section \<open>Notions used to state the properties\<close>

text \<open>
  \<open>dispatched lib md fr tcs rs\<close>: the loop, entered with \<open>function_response\<close> bound
  as \<open>fr\<close> says, gets through all of \<open>tcs\<close>, and \<open>rs\<close> are the values that
  \<open>function_response\<close> holds at the end of the successive iterations.
\<close>

fun dispatched :: "pylib \<Rightarrow> mock_data \<Rightarrow> pyval option \<Rightarrow> tool_call list \<Rightarrow> pyval list \<Rightarrow> bool" where
  "dispatched lib md fr [] rs = (rs = [])"
| "dispatched lib md fr (tc # rest) rs =
     (case rs of
        [] \<Rightarrow> False
      | r # rs' \<Rightarrow>
          (case json_loads lib (tc_arguments tc) of
             None \<Rightarrow> False
           | Some function_args \<Rightarrow>
               call_tool lib md fr (tc_name tc) function_args = Inr (Some r)
               \<and> dispatched lib md (Some r) rest rs'))"

text \<open>The messages of a history that carry tool-call requests, and its tool messages.\<close>

definition call_messages :: "message list \<Rightarrow> message list" where
  "call_messages h = filter (\<lambda>m. tool_calls m \<noteq> None) h"

definition tool_messages :: "message list \<Rightarrow> message list" where
  "tool_messages h = filter (\<lambda>m. role m = Tool) h"

text \<open>
  Reading a formatted amount back: the decimal digits, and the number that a string
  of digits denotes.
\<close>

definition is_digit :: "char \<Rightarrow> bool" where
  "is_digit c = (c \<in> set ''0123456789'')"

definition decimal_value :: "string \<Rightarrow> nat" where
  "decimal_value ds = foldl (\<lambda>a c. 10 * a + (of_char c - 48)) 0 ds"

text \<open>Successive turns of one session, whatever their outcomes.\<close>

fun run_turns :: "pylib \<Rightarrow> chatbot \<Rightarrow> string \<Rightarrow> string list \<Rightarrow> chatbot" where
  "run_turns lib self sid [] = self"
| "run_turns lib self sid (t # ts) = run_turns lib (snd (process_message lib self sid t)) sid ts"

section \<open>Example inputs\<close>

text \<open>
  Modelled from the spec: the account data. The file \<open>mock_accounts.json\<close> is not
  among the sources; the spec's scenarios give an account \<open>12345\<close> with PIN \<open>0000\<close>,
  balance 500.0, currency USD with symbol \<open>$\<close> and status active, and a balance of
  1234.5 in USD. The other fields of the records, which the code reads as well, are
  filled with sample values.
\<close>

definition example_data :: mock_data where
  "example_data =
     \<lparr>accounts =
        [(''12345'',
            [(''pin'', PStr ''0000''),
             (''balance'', PFloat 500 0),
             (''currency'', PStr ''USD''),
             (''account_type'', PStr ''savings''),
             (''account_holder'', PStr ''Test Holder''),
             (''account_status'', PStr ''active''),
             (''last_transaction'', PStr ''2024-01-15'')]),
         (''67890'',
            [(''pin'', PStr ''4321''),
             (''balance'', PFloat 2469 (- 1)),
             (''currency'', PStr ''USD''),
             (''account_type'', PStr ''savings''),
             (''account_holder'', PStr ''Other Holder''),
             (''account_status'', PStr ''frozen''),
             (''last_transaction'', PStr ''2024-02-01'')])],
      account_types =
        [(''savings'',
            [(''daily_withdrawal_limit'', PInt 1000),
             (''minimum_balance'', PInt 100)])],
      currencies = [(''USD'', [(''symbol'', PStr ''$''), (''name'', PStr ''US Dollar'')])]\<rparr>"

text \<open>
  Account data whose records lack fields: one has an int balance that no float holds
  exactly and no currency, the other neither balance nor currency; there is no table
  of currencies.
\<close>

definition example_sparse :: mock_data where
  "example_sparse =
     \<lparr>accounts =
        [(''24680'', [(''balance'', PInt 9007199254740993)]),
         (''13579'', [(''pin'', PStr ''1111'')])],
      account_types = [],
      currencies = []\<rparr>"

text \<open>
  A library for the examples: \<open>json.loads\<close> and \<open>json.dumps\<close> as finite tables on
  the texts and values that the examples meet.
\<close>

definition example_lib :: pylib where
  \<open>example_lib =
     \<lparr>json_loads = map_of
        [(''{"account_number": "12345"}'', PDict [(''account_number'', PStr ''12345'')]),
         (''{"account_number": "12345", "pin": "0000"}'',
            PDict [(''account_number'', PStr ''12345''), (''pin'', PStr ''0000'')]),
         (''{"account_number": "99999", "pin": null}'',
            PDict [(''account_number'', PStr ''99999''), (''pin'', PNone)]),
         (''{"account_number": [], "pin": "0000"}'',
            PDict [(''account_number'', PList []), (''pin'', PStr ''0000'')]),
         (''{}'', PDict [])],
      json_dumps = (\<lambda>v.
        if v = PDict [(''valid'', PBool True), (''message'', PStr ''Account found''),
                      (''account_status'', PStr ''active'')]
        then ''{"valid": true, "message": "Account found", "account_status": "active"}''
        else if v = PDict [(''valid'', PBool True), (''message'', PStr ''PIN validated'')]
        then ''{"valid": true, "message": "PIN validated"}''
        else ''null''),
      repr = (\<lambda>v. ''None'')\<rparr>\<close>

definition call_1 :: tool_call where
  \<open>call_1 = \<lparr>tc_id = ''call_1'', tc_name = ''validate_account_number'',
              tc_arguments = ''{"account_number": "12345"}''\<rparr>\<close>

definition call_2 :: tool_call where
  \<open>call_2 = \<lparr>tc_id = ''call_2'', tc_name = ''validate_pin'',
              tc_arguments = ''{"account_number": "12345", "pin": "0000"}''\<rparr>\<close>

definition call_3 :: tool_call where
  \<open>call_3 = \<lparr>tc_id = ''call_3'', tc_name = ''transfer_funds'', tc_arguments = ''{}''\<rparr>\<close>

definition call_4 :: tool_call where
  \<open>call_4 = \<lparr>tc_id = ''call_4'', tc_name = ''validate_pin'',
              tc_arguments = ''{"account_number": "99999", "pin": null}''\<rparr>\<close>

definition call_5 :: tool_call where
  \<open>call_5 = \<lparr>tc_id = ''call_5'', tc_name = ''get_account_balance'',
              tc_arguments = ''{"account_number": [], "pin": "0000"}''\<rparr>\<close>

definition reply_calls :: "tool_call list \<Rightarrow> reply" where
  "reply_calls tcs = \<lparr>reply_content = None, reply_tool_calls = Some tcs\<rparr>"

definition reply_text :: "string \<Rightarrow> reply" where
  "reply_text s = \<lparr>reply_content = Some s, reply_tool_calls = None\<rparr>"

text \<open>
  A completion service that answers the call offering the tools with \<open>first\<close> and
  the follow-up call, which offers none, with \<open>second\<close>.
\<close>

definition scripted :: "reply \<Rightarrow> reply \<Rightarrow> request \<Rightarrow> exn + reply" where
  "scripted first second req = (if req_tools req = [] then Inr second else Inr first)"

definition example_bot :: "reply \<Rightarrow> reply \<Rightarrow> chatbot" where
  "example_bot first second =
     \<lparr>client = scripted first second, mock = example_data, conversations = Map.empty\<rparr>"

section \<open>Credentials\<close>







lemma validate_null_pin_missing_account:
  "map_of (accounts md) a = None \<Longrightarrow> validate_account_and_pin md (PStr a) PNone = Inr True"
  by (simp add: validate_account_and_pin_def get_account_def table_get_def and_then_def
        dict_get_def)

section \<open>Ending a session\<close>

lemma end_session_conversations:
  "conversations (snd (end_session self sid)) = (conversations self)(sid := None)"
  by (auto simp: end_session_def fun_eq_iff)

lemma end_session_again:
  "snd (end_session (snd (end_session self sid)) sid) = snd (end_session self sid)"
  by (simp add: end_session_def)

lemma end_session_funpow:
  "((\<lambda>b. snd (end_session b sid)) ^^ Suc n) self = snd (end_session self sid)"
proof (induction n)
  case 0
  show ?case by simp
next
  case (Suc n)
  have "((\<lambda>b. snd (end_session b sid)) ^^ Suc (Suc n)) self
      = snd (end_session (((\<lambda>b. snd (end_session b sid)) ^^ Suc n) self) sid)"
    by simp
  also have "\<dots> = snd (end_session (snd (end_session self sid)) sid)"
    by (simp only: Suc.IH)
  finally show ?case by (simp only: end_session_again)
qed

text \<open>
  C9. Ending a session always answers with the same confirmation, whether or not the
  session exists, and never with an error. After it the identifier has no session
  and every other session is as before. Repeating the deletion any number of times
  changes nothing further: after \<open>n\<close> earlier deletions of the same identifier the next
  one still answers with the confirmation and leaves the same state as a single one.
\<close>

theorem end_session_idempotent:
  "fst (end_session (((\<lambda>b. snd (end_session b sid)) ^^ n) self) sid)
     = Ok200 (PDict [(''message'', PStr ''Session ended successfully'')])
   \<and> conversations (snd (end_session self sid)) = (conversations self)(sid := None)
   \<and> ((\<lambda>b. snd (end_session b sid)) ^^ Suc n) self = snd (end_session self sid)"
proof -
  have "fst (end_session b sid) = Ok200 (PDict [(''message'', PStr ''Session ended successfully'')])"
    for b
    by (simp add: end_session_def)
  then show ?thesis
    using end_session_conversations end_session_funpow by blast
qed

section \<open>The loop over the tool calls\<close>

lemma dispatched_length: "dispatched lib md fr tcs rs \<Longrightarrow> length rs = length tcs"
  by (induction tcs arbitrary: fr rs) (auto split: list.splits option.splits)

lemma run_tool_calls_completed_iff:
  "run_tool_calls lib md fr h tcs = (None, h') \<longleftrightarrow>
     (\<exists>rs. dispatched lib md fr tcs rs \<and> h' = h @ concat (map2 (appended_for lib) tcs rs))"
proof (induction tcs arbitrary: fr h)
  case Nil
  show ?case by auto
next
  case (Cons tc rest)
  show ?case
  proof (cases "json_loads lib (tc_arguments tc)")
    case None
    then show ?thesis by (auto split: list.splits)
  next
    case (Some args)
    show ?thesis
    proof (cases "call_tool lib md fr (tc_name tc) args")
      case (Inl e)
      with Some show ?thesis by (auto split: list.splits)
    next
      case (Inr b)
      show ?thesis
      proof (cases b)
        case None
        with Some Inr show ?thesis by (auto split: list.splits)
      next
        case r: (Some r)
        have "run_tool_calls lib md fr h (tc # rest) = (None, h') \<longleftrightarrow>
              run_tool_calls lib md (Some r) (h @ appended_for lib tc r) rest = (None, h')"
          using Some Inr r by simp
        also have "\<dots> \<longleftrightarrow> (\<exists>rs. dispatched lib md (Some r) rest rs
              \<and> h' = (h @ appended_for lib tc r) @ concat (map2 (appended_for lib) rest rs))"
          by (rule Cons.IH)
        also have "\<dots> \<longleftrightarrow> (\<exists>rs. dispatched lib md fr (tc # rest) rs
              \<and> h' = h @ concat (map2 (appended_for lib) (tc # rest) rs))"
          (is "?L \<longleftrightarrow> ?R")
        proof
          assume ?L
          then obtain rs where "dispatched lib md (Some r) rest rs"
            "h' = (h @ appended_for lib tc r) @ concat (map2 (appended_for lib) rest rs)"
            by blast
          then have "dispatched lib md fr (tc # rest) (r # rs)
              \<and> h' = h @ concat (map2 (appended_for lib) (tc # rest) (r # rs))"
            using Some Inr r by simp
          then show ?R by blast
        next
          assume ?R
          then obtain rs where d: "dispatched lib md fr (tc # rest) rs"
            and h: "h' = h @ concat (map2 (appended_for lib) (tc # rest) rs)"
            by blast
          from d obtain rs' where rs: "rs = r # rs'" and d': "dispatched lib md (Some r) rest rs'"
            using Some Inr r by (cases rs) auto
          from h rs have "h' = (h @ appended_for lib tc r) @ concat (map2 (appended_for lib) rest rs')"
            by simp
          with d' show ?L by blast
        qed
        finally show ?thesis .
      qed
    qed
  qed
qed

lemma run_tool_calls_append:
  "run_tool_calls lib md fr h (xs @ ys) = (None, h') \<Longrightarrow>
     \<exists>hm fr'. run_tool_calls lib md fr h xs = (None, hm)
        \<and> run_tool_calls lib md fr' hm ys = (None, h')"
proof (induction xs arbitrary: fr h)
  case Nil
  then show ?case by auto
next
  case (Cons tc rest)
  from Cons.prems obtain args r where
    a: "json_loads lib (tc_arguments tc) = Some args"
       "call_tool lib md fr (tc_name tc) args = Inr (Some r)"
       "run_tool_calls lib md (Some r) (h @ appended_for lib tc r) (rest @ ys) = (None, h')"
    by (auto split: option.splits sum.splits)
  from Cons.IH [OF a(3)] a(1,2) show ?case by auto
qed

lemma run_tool_calls_extends:
  "run_tool_calls lib md fr h tcs = (out, h') \<Longrightarrow>
     \<exists>app. h' = h @ app \<and> list_all (\<lambda>m. role m = Assistant \<or> role m = Tool) app"
proof (induction tcs arbitrary: fr h)
  case Nil
  then show ?case by simp
next
  case (Cons tc rest)
  show ?case
  proof (cases "json_loads lib (tc_arguments tc)")
    case None
    with Cons.prems show ?thesis by simp
  next
    case (Some args)
    show ?thesis
    proof (cases "call_tool lib md fr (tc_name tc) args")
      case (Inl e)
      with Some Cons.prems show ?thesis by simp
    next
      case (Inr b)
      show ?thesis
      proof (cases b)
        case None
        with Some Inr Cons.prems have "h' = h @ [assistant_call_message [tc]]" by simp
        then show ?thesis by (simp add: assistant_call_message_def)
      next
        case (Some r)
        with \<open>json_loads lib (tc_arguments tc) = Some args\<close> Inr Cons.prems
        have "run_tool_calls lib md (Some r) (h @ appended_for lib tc r) rest = (out, h')" by simp
        from Cons.IH [OF this] obtain app where
          "h' = (h @ appended_for lib tc r) @ app" "list_all (\<lambda>m. role m = Assistant \<or> role m = Tool) app"
          by blast
        then have "h' = h @ (appended_for lib tc r @ app)"
          "list_all (\<lambda>m. role m = Assistant \<or> role m = Tool) (appended_for lib tc r @ app)"
          by (simp_all add: appended_for_def assistant_call_message_def tool_message_def)
        then show ?thesis by blast
      qed
    qed
  qed
qed

section \<open>The shape of a turn\<close>

lemma pairs_nth:
  "length rs = length tcs \<Longrightarrow> i < length tcs \<Longrightarrow>
     concat (map2 (appended_for lib) tcs rs) ! (2 * i) = assistant_call_message [tcs ! i]
   \<and> concat (map2 (appended_for lib) tcs rs) ! (2 * i + 1)
       = tool_message (tc_id (tcs ! i)) (json_dumps lib (rs ! i))"
proof (induction tcs arbitrary: rs i)
  case Nil
  then show ?case by simp
next
  case (Cons tc rest)
  then obtain r rs' where rs: "rs = r # rs'" "length rs' = length rest"
    by (cases rs) auto
  show ?case
  proof (cases i)
    case 0
    then show ?thesis using rs by (simp add: appended_for_def)
  next
    case (Suc j)
    then have j: "j < length rest" using Cons.prems by simp
    have a: "2 * i = Suc (Suc (2 * j))" "2 * i + 1 = Suc (Suc (2 * j + 1))"
      using Suc by simp_all
    from Cons.IH [OF rs(2) j] show ?thesis
      unfolding a using rs Suc by (simp add: appended_for_def)
  qed
qed

lemma pairs_length:
  "length rs = length tcs \<Longrightarrow> length (concat (map2 (appended_for lib) tcs rs)) = 2 * length tcs"
  by (induction tcs arbitrary: rs) (auto simp: appended_for_def length_Suc_conv)

lemma pairs_call_messages:
  "length rs = length tcs \<Longrightarrow>
     call_messages (concat (map2 (appended_for lib) tcs rs))
       = map (\<lambda>tc. assistant_call_message [tc]) tcs"
  by (induction tcs arbitrary: rs)
     (auto simp: appended_for_def length_Suc_conv call_messages_def
        assistant_call_message_def tool_message_def)

lemma pairs_tool_messages:
  "length rs = length tcs \<Longrightarrow>
     tool_messages (concat (map2 (appended_for lib) tcs rs))
       = map2 (\<lambda>tc r. tool_message (tc_id tc) (json_dumps lib r)) tcs rs"
  by (induction tcs arbitrary: rs)
     (auto simp: appended_for_def length_Suc_conv tool_messages_def
        assistant_call_message_def tool_message_def)

lemma pairs_tool_ids:
  "length rs = length tcs \<Longrightarrow>
     map tool_call_id (tool_messages (concat (map2 (appended_for lib) tcs rs)))
       = map (\<lambda>tc. Some (tc_id tc)) tcs"
  by (induction tcs arbitrary: rs)
     (auto simp: appended_for_def length_Suc_conv tool_messages_def
        assistant_call_message_def tool_message_def)

lemma process_message_direct:
  assumes "client self \<lparr>req_model = ''gpt-4o'',
             req_messages = history_of self sid @ [user_message txt],
             req_tools = offered_tools\<rparr> = Inr first"
    and "requested first = []"
  shows "process_message lib self sid txt =
     (Inr (reply_content first),
      store self sid (history_of self sid @ [user_message txt] @ [assistant_message (reply_content first)]))"
  using assms by (simp add: process_message_def)

lemma process_message_after_tools:
  assumes "client self \<lparr>req_model = ''gpt-4o'',
             req_messages = history_of self sid @ [user_message txt],
             req_tools = offered_tools\<rparr> = Inr first"
    and "requested first \<noteq> []"
    and "run_tool_calls lib (mock self) None (history_of self sid @ [user_message txt])
           (requested first) = (None, h2)"
  shows "process_message lib self sid txt =
     (case client self \<lparr>req_model = ''gpt-4'', req_messages = h2, req_tools = []\<rparr> of
        Inl e \<Rightarrow> (Inl e, store self sid h2)
      | Inr second \<Rightarrow>
          (Inr (reply_content second),
           store self sid (h2 @ [assistant_message (reply_content second)])))"
  using assms by (simp add: process_message_def)

lemma process_message_returns:
  assumes "process_message lib self sid txt = (Inr resp, self')"
  shows "\<exists>first.
      client self \<lparr>req_model = ''gpt-4o'',
        req_messages = history_of self sid @ [user_message txt],
        req_tools = offered_tools\<rparr> = Inr first
    \<and> ((requested first = [] \<and> resp = reply_content first
          \<and> self' = store self sid
               (history_of self sid @ [user_message txt] @ [assistant_message resp]))
       \<or> (requested first \<noteq> []
          \<and> (\<exists>h2 second.
               run_tool_calls lib (mock self) None (history_of self sid @ [user_message txt])
                 (requested first) = (None, h2)
             \<and> client self \<lparr>req_model = ''gpt-4'', req_messages = h2, req_tools = []\<rparr> = Inr second
             \<and> resp = reply_content second
             \<and> self' = store self sid (h2 @ [assistant_message resp]))))"
  using assms
  by (auto simp: process_message_def Let_def split: sum.splits if_splits prod.splits option.splits)

lemma process_message_extends:
  "\<exists>rest. snd (process_message lib self sid txt)
       = store self sid (history_of self sid @ user_message txt # rest)
     \<and> list_all (\<lambda>m. role m = Assistant \<or> role m = Tool) rest"
proof -
  let ?h1 = "history_of self sid @ [user_message txt]"
  have ext: "\<exists>rest. b = store self sid (history_of self sid @ user_message txt # rest)
     \<and> list_all (\<lambda>m. role m = Assistant \<or> role m = Tool) rest"
    if "b = store self sid (?h1 @ app)" "list_all (\<lambda>m. role m = Assistant \<or> role m = Tool) app"
    for b app
    using that by auto
  show ?thesis
  proof (cases "client self \<lparr>req_model = ''gpt-4o'', req_messages = ?h1, req_tools = offered_tools\<rparr>")
    case (Inl e)
    then have "snd (process_message lib self sid txt) = store self sid (?h1 @ [])"
      by (simp add: process_message_def)
    then show ?thesis by (rule ext) simp
  next
    case (Inr first)
    show ?thesis
    proof (cases "requested first = []")
      case True
      with Inr have "snd (process_message lib self sid txt)
          = store self sid (?h1 @ [assistant_message (reply_content first)])"
        by (simp add: process_message_def)
      then show ?thesis by (rule ext) (simp add: assistant_message_def)
    next
      case False
      obtain out h2 where run: "run_tool_calls lib (mock self) None ?h1 (requested first) = (out, h2)"
        by (cases "run_tool_calls lib (mock self) None ?h1 (requested first)")
      from run_tool_calls_extends [OF run] obtain app where
        app: "h2 = ?h1 @ app" "list_all (\<lambda>m. role m = Assistant \<or> role m = Tool) app"
        by blast
      show ?thesis
      proof (cases out)
        case (Some e)
        with Inr False run have "snd (process_message lib self sid txt) = store self sid (?h1 @ app)"
          by (simp add: process_message_def app(1))
        then show ?thesis using app(2) by (rule ext)
      next
        case None
        show ?thesis
        proof (cases "client self \<lparr>req_model = ''gpt-4'', req_messages = h2, req_tools = []\<rparr>")
          case (Inl e)
          with Inr False run None have "snd (process_message lib self sid txt) = store self sid (?h1 @ app)"
            by (simp add: process_message_def app(1))
          then show ?thesis using app(2) by (rule ext)
        next
          case second: (Inr second)
          with Inr False run None have "snd (process_message lib self sid txt)
              = store self sid (?h1 @ (app @ [assistant_message (reply_content second)]))"
            by (simp add: process_message_def app(1))
          then show ?thesis by (rule ext) (simp add: app(2) assistant_message_def)
        qed
      qed
    qed
  qed
qed

section \<open>Example turns\<close>

lemmas example_defs = process_message_def history_of_def store_def example_bot_def scripted_def
  requested_def offered_tools_def example_lib_def example_data_def call_1_def call_2_def call_3_def
  call_4_def call_5_def
  call_tool_def subscript_def dict_item_def dict_get_def and_then_def validate_account_number_def
  validate_pin_def validate_account_and_pin_def get_account_def table_get_def appended_for_def
  get_initial_conversation_def reply_calls_def reply_text_def

lemma example_turn_two_calls:
  \<open>process_message example_lib (example_bot (reply_calls [call_1, call_2]) (reply_text ''ok''))
      ''s1'' ''hi''
   = (Inr (Some ''ok''),
      store (example_bot (reply_calls [call_1, call_2]) (reply_text ''ok'')) ''s1''
        [system_message system_prompt, user_message ''hi'',
         assistant_call_message [call_1],
         tool_message ''call_1''
           ''{"valid": true, "message": "Account found", "account_status": "active"}'',
         assistant_call_message [call_2],
         tool_message ''call_2'' ''{"valid": true, "message": "PIN validated"}'',
         assistant_message (Some ''ok'')])\<close>
  by (simp add: example_defs)

lemma example_turn_unknown_second:
  \<open>process_message example_lib (example_bot (reply_calls [call_1, call_3]) (reply_text ''ok''))
      ''s1'' ''hi''
   = (Inr (Some ''ok''),
      store (example_bot (reply_calls [call_1, call_3]) (reply_text ''ok'')) ''s1''
        [system_message system_prompt, user_message ''hi'',
         assistant_call_message [call_1],
         tool_message ''call_1''
           ''{"valid": true, "message": "Account found", "account_status": "active"}'',
         assistant_call_message [call_3],
         tool_message ''call_3''
           ''{"valid": true, "message": "Account found", "account_status": "active"}'',
         assistant_message (Some ''ok'')])\<close>
  by (simp add: example_defs)

lemma example_turn_unknown_first:
  \<open>process_message example_lib (example_bot (reply_calls [call_3, call_1]) (reply_text ''ok''))
      ''s1'' ''hi''
   = (Inl (UnboundLocalError ''function_response''),
      store (example_bot (reply_calls [call_3, call_1]) (reply_text ''ok'')) ''s1''
        [system_message system_prompt, user_message ''hi'',
         assistant_call_message [call_3]])\<close>
  by (simp add: example_defs)

lemma example_turn_follow_up_calls:
  \<open>process_message example_lib
      (example_bot (reply_calls [call_1]) \<lparr>reply_content = None, reply_tool_calls = Some [call_2]\<rparr>)
      ''s1'' ''hi''
   = (Inr None,
      store (example_bot (reply_calls [call_1])
               \<lparr>reply_content = None, reply_tool_calls = Some [call_2]\<rparr>) ''s1''
        [system_message system_prompt, user_message ''hi'',
         assistant_call_message [call_1],
         tool_message ''call_1''
           ''{"valid": true, "message": "Account found", "account_status": "active"}'',
         assistant_message None])\<close>
  by (simp add: example_defs)

lemma example_first_reply:
  "client (example_bot first second)
     \<lparr>req_model = ''gpt-4o'',
      req_messages = history_of (example_bot first second) sid @ [user_message txt],
      req_tools = offered_tools\<rparr> = Inr first"
  by (simp add: example_bot_def scripted_def offered_tools_def)

lemma dispatched_unique:
  "dispatched lib md fr tcs rs \<Longrightarrow> dispatched lib md fr tcs rs' \<Longrightarrow> rs = rs'"
  by (induction tcs arbitrary: fr rs rs') (auto split: list.splits option.splits)



lemma example_requested: "requested (reply_calls tcs) = tcs"
  by (simp add: requested_def reply_calls_def)

section \<open>What a turn appends\<close>

lemma turn_history:
  assumes "process_message lib self sid txt = (Inr resp, self')"
  shows "\<exists>first rs.
      client self \<lparr>req_model = ''gpt-4o'',
        req_messages = history_of self sid @ [user_message txt],
        req_tools = offered_tools\<rparr> = Inr first
    \<and> dispatched lib (mock self) None (requested first) rs
    \<and> length rs = length (requested first)
    \<and> self' = store self sid
         (history_of self sid @ [user_message txt]
            @ concat (map2 (appended_for lib) (requested first) rs)
            @ [assistant_message resp])"
proof -
  from process_message_returns [OF assms] obtain first where
    first: "client self \<lparr>req_model = ''gpt-4o'',
        req_messages = history_of self sid @ [user_message txt],
        req_tools = offered_tools\<rparr> = Inr first"
    and alt: "(requested first = [] \<and> resp = reply_content first
          \<and> self' = store self sid
               (history_of self sid @ [user_message txt] @ [assistant_message resp]))
       \<or> (requested first \<noteq> []
          \<and> (\<exists>h2 second.
               run_tool_calls lib (mock self) None (history_of self sid @ [user_message txt])
                 (requested first) = (None, h2)
             \<and> client self \<lparr>req_model = ''gpt-4'', req_messages = h2, req_tools = []\<rparr> = Inr second
             \<and> resp = reply_content second
             \<and> self' = store self sid (h2 @ [assistant_message resp])))"
    by blast
  from alt show ?thesis
  proof
    assume a: "requested first = [] \<and> resp = reply_content first
          \<and> self' = store self sid
               (history_of self sid @ [user_message txt] @ [assistant_message resp])"
    then have "dispatched lib (mock self) None (requested first) []
      \<and> length ([] :: pyval list) = length (requested first)
      \<and> self' = store self sid
         (history_of self sid @ [user_message txt]
            @ concat (map2 (appended_for lib) (requested first) [])
            @ [assistant_message resp])"
      by simp
    with first show ?thesis by blast
  next
    assume "requested first \<noteq> []
          \<and> (\<exists>h2 second.
               run_tool_calls lib (mock self) None (history_of self sid @ [user_message txt])
                 (requested first) = (None, h2)
             \<and> client self \<lparr>req_model = ''gpt-4'', req_messages = h2, req_tools = []\<rparr> = Inr second
             \<and> resp = reply_content second
             \<and> self' = store self sid (h2 @ [assistant_message resp]))"
    then obtain h2 where
      run: "run_tool_calls lib (mock self) None (history_of self sid @ [user_message txt])
                 (requested first) = (None, h2)"
      and s: "self' = store self sid (h2 @ [assistant_message resp])"
      by blast
    from run obtain rs where rs: "dispatched lib (mock self) None (requested first) rs"
      "h2 = (history_of self sid @ [user_message txt])
              @ concat (map2 (appended_for lib) (requested first) rs)"
      unfolding run_tool_calls_completed_iff by blast
    from rs(1) have "length rs = length (requested first)" by (rule dispatched_length)
    with first rs s show ?thesis by auto
  qed
qed

lemma example_turn_stored:
  \<open>process_message example_lib
      (store (example_bot (reply_calls [call_1, call_2]) (reply_text ''ok'')) ''s1''
         [system_message system_prompt, user_message ''old'', assistant_message (Some ''fine'')])
      ''s1'' ''hi''
   = (Inr (Some ''ok''),
      store (store (example_bot (reply_calls [call_1, call_2]) (reply_text ''ok'')) ''s1''
         [system_message system_prompt, user_message ''old'', assistant_message (Some ''fine'')])
        ''s1''
        [system_message system_prompt, user_message ''old'', assistant_message (Some ''fine''),
         user_message ''hi'',
         assistant_call_message [call_1],
         tool_message ''call_1''
           ''{"valid": true, "message": "Account found", "account_status": "active"}'',
         assistant_call_message [call_2],
         tool_message ''call_2'' ''{"valid": true, "message": "PIN validated"}'',
         assistant_message (Some ''ok'')])\<close>
  by (simp add: example_defs)


text \<open>
  C10. A call of \<open>process_message\<close> that returns leaves, as the history of the
  session, the history that the session had before (the single system message when
  the identifier had no session) followed by, in this order: one user message with
  the input text; then, for each of the \<open>k\<close> tool calls that the first reply
  requested, the assistant message of that call and its tool message (nothing when the
  reply requested none); last, one assistant message whose content is the value
  returned. The earlier messages are unchanged, and the other sessions and fields of
  the chatbot are as before.
\<close>

theorem process_message_appends:
  assumes "process_message lib self sid txt = (Inr resp, self')"
  shows "\<exists>prior first rs.
      (conversations self sid = None \<and> prior = [system_message system_prompt]
         \<or> conversations self sid = Some prior)
    \<and> client self \<lparr>req_model = ''gpt-4o'',
        req_messages = prior @ [user_message txt],
        req_tools = offered_tools\<rparr> = Inr first
    \<and> dispatched lib (mock self) None (requested first) rs
    \<and> length rs = length (requested first)
    \<and> conversations self' sid = Some
         (prior @ [user_message txt]
            @ concat (map2 (appended_for lib) (requested first) rs)
            @ [assistant_message resp])
    \<and> length (concat (map2 (appended_for lib) (requested first) rs))
         = 2 * length (requested first)
    \<and> (\<forall>i < length (requested first).
          concat (map2 (appended_for lib) (requested first) rs) ! (2 * i)
            = \<lparr>role = Assistant, content = None,
                tool_calls = Some [requested first ! i], tool_call_id = None\<rparr>
        \<and> concat (map2 (appended_for lib) (requested first) rs) ! (2 * i + 1)
            = \<lparr>role = Tool, content = Some (json_dumps lib (rs ! i)),
                tool_calls = None, tool_call_id = Some (tc_id (requested first ! i))\<rparr>)
    \<and> user_message txt
         = \<lparr>role = User, content = Some txt, tool_calls = None, tool_call_id = None\<rparr>
    \<and> assistant_message resp
         = \<lparr>role = Assistant, content = resp, tool_calls = None, tool_call_id = None\<rparr>
    \<and> (\<forall>other. other \<noteq> sid \<longrightarrow> conversations self' other = conversations self other)
    \<and> client self' = client self \<and> mock self' = mock self"
proof -
  from turn_history [OF assms] obtain first rs where
    first: "client self \<lparr>req_model = ''gpt-4o'',
        req_messages = history_of self sid @ [user_message txt],
        req_tools = offered_tools\<rparr> = Inr first"
    and d: "dispatched lib (mock self) None (requested first) rs"
    and len: "length rs = length (requested first)"
    and s: "self' = store self sid
         (history_of self sid @ [user_message txt]
            @ concat (map2 (appended_for lib) (requested first) rs)
            @ [assistant_message resp])"
    by blast
  define prior where "prior = history_of self sid"
  have p: "conversations self sid = None \<and> prior = [system_message system_prompt]
         \<or> conversations self sid = Some prior"
    unfolding prior_def history_of_def get_initial_conversation_def
    by (cases "conversations self sid") simp_all
  have f: "client self \<lparr>req_model = ''gpt-4o'',
        req_messages = prior @ [user_message txt],
        req_tools = offered_tools\<rparr> = Inr first"
    using first by (simp only: prior_def)
  have c: "conversations self' sid = Some
         (prior @ [user_message txt]
            @ concat (map2 (appended_for lib) (requested first) rs)
            @ [assistant_message resp])"
    using s by (simp add: store_def prior_def)
  have l: "length (concat (map2 (appended_for lib) (requested first) rs))
         = 2 * length (requested first)"
    using len by (rule pairs_length)
  have i: "\<forall>i < length (requested first).
          concat (map2 (appended_for lib) (requested first) rs) ! (2 * i)
            = \<lparr>role = Assistant, content = None,
                tool_calls = Some [requested first ! i], tool_call_id = None\<rparr>
        \<and> concat (map2 (appended_for lib) (requested first) rs) ! (2 * i + 1)
            = \<lparr>role = Tool, content = Some (json_dumps lib (rs ! i)),
                tool_calls = None, tool_call_id = Some (tc_id (requested first ! i))\<rparr>"
    using pairs_nth [OF len, of _ lib]
    by (simp add: assistant_call_message_def tool_message_def)
  have u: "user_message txt
         = \<lparr>role = User, content = Some txt, tool_calls = None, tool_call_id = None\<rparr>"
    by (simp add: user_message_def)
  have a: "assistant_message resp
         = \<lparr>role = Assistant, content = resp, tool_calls = None, tool_call_id = None\<rparr>"
    by (simp add: assistant_message_def)
  have o: "\<forall>other. other \<noteq> sid \<longrightarrow> conversations self' other = conversations self other"
    using s by (simp add: store_def)
  have k: "client self' = client self" "mock self' = mock self"
    using s by (simp_all add: store_def)
  show ?thesis
    by (rule exI [of _ prior], rule exI [of _ first], rule exI [of _ rs], intro conjI)
       (rule p, rule f, rule d, rule len, rule c, rule l, rule i, rule u, rule a, rule o,
        rule k(1), rule k(2))
qed

theorem process_message_appends_witness:
  \<open>\<exists>first rs.
      scripted (reply_calls [call_1, call_2]) (reply_text ''ok'')
        \<lparr>req_model = ''gpt-4o'',
         req_messages =
           [system_message system_prompt, user_message ''old'', assistant_message (Some ''fine'')]
             @ [user_message ''hi''],
         req_tools = offered_tools\<rparr> = Inr first
    \<and> dispatched example_lib example_data None (requested first) rs
    \<and> length rs = length (requested first)
    \<and> [system_message system_prompt, user_message ''old'', assistant_message (Some ''fine''),
         user_message ''hi'',
         assistant_call_message [call_1],
         tool_message ''call_1''
           ''{"valid": true, "message": "Account found", "account_status": "active"}'',
         assistant_call_message [call_2],
         tool_message ''call_2'' ''{"valid": true, "message": "PIN validated"}'',
         assistant_message (Some ''ok'')]
      = [system_message system_prompt, user_message ''old'', assistant_message (Some ''fine'')]
            @ [user_message ''hi'']
            @ concat (map2 (appended_for example_lib) (requested first) rs)
            @ [assistant_message (Some ''ok'')]\<close>
proof -
  let ?old = "[system_message system_prompt, user_message ''old'',
      assistant_message (Some ''fine'')]"
  let ?bot = "store (example_bot (reply_calls [call_1, call_2]) (reply_text ''ok'')) ''s1'' ?old"
  have stored: "conversations ?bot ''s1'' = Some ?old" by (simp add: store_def)
  from process_message_appends [OF example_turn_stored] obtain prior first rs where
    p: "conversations ?bot ''s1'' = None \<and> prior = [system_message system_prompt]
         \<or> conversations ?bot ''s1'' = Some prior"
    and f: "client ?bot \<lparr>req_model = ''gpt-4o'',
        req_messages = prior @ [user_message ''hi''],
        req_tools = offered_tools\<rparr> = Inr first"
    and d: "dispatched example_lib (mock ?bot) None (requested first) rs"
    and len: "length rs = length (requested first)"
    and c: \<open>conversations
        (store ?bot ''s1''
          [system_message system_prompt, user_message ''old'', assistant_message (Some ''fine''),
           user_message ''hi'',
           assistant_call_message [call_1],
           tool_message ''call_1''
             ''{"valid": true, "message": "Account found", "account_status": "active"}'',
           assistant_call_message [call_2],
           tool_message ''call_2'' ''{"valid": true, "message": "PIN validated"}'',
           assistant_message (Some ''ok'')]) ''s1''
       = Some (prior @ [user_message ''hi'']
            @ concat (map2 (appended_for example_lib) (requested first) rs)
            @ [assistant_message (Some ''ok'')])\<close>
    by blast
  from p stored have prior: "prior = ?old" by simp
  show ?thesis
    apply (rule exI [of _ first], rule exI [of _ rs], intro conjI)
    using f d len c unfolding prior
    by (simp_all add: store_def example_bot_def)
qed






section \<open>Unknown tool names and the assistant messages of the calls\<close>

lemma call_tool_unknown:
  "function_name \<notin> set offered_tools \<Longrightarrow>
     call_tool lib md function_response function_name function_args = Inr function_response"
  by (simp add: call_tool_def offered_tools_def)

text \<open>
  C1. What the code does with a tool name outside the three: the chain of branches
  leaves \<open>function_response\<close> as it was. In the example the first reply requests
  \<open>validate_account_number\<close> and then the unknown \<open>transfer_funds\<close>: the turn
  returns normally, the endpoint answers 200, and the tool message appended for the
  unknown call carries the result of the call before it.
\<close>

theorem unknown_tool_gets_stale_result:
  \<open>process_message example_lib (example_bot (reply_calls [call_1, call_3]) (reply_text ''ok''))
      ''s1'' ''hi''
   = (Inr (Some ''ok''),
      store (example_bot (reply_calls [call_1, call_3]) (reply_text ''ok'')) ''s1''
        [system_message system_prompt, user_message ''hi'',
         assistant_call_message [call_1],
         tool_message ''call_1''
           ''{"valid": true, "message": "Account found", "account_status": "active"}'',
         assistant_call_message [call_3],
         tool_message ''call_3''
           ''{"valid": true, "message": "Account found", "account_status": "active"}'',
         assistant_message (Some ''ok'')])
   \<and> tc_name call_3 \<notin> set offered_tools
   \<and> fst (chat_endpoint example_lib
             (example_bot (reply_calls [call_1, call_3]) (reply_text ''ok'')) ''s1'' ''hi'')
       = Ok200 (PDict [(''response'', PStr ''ok'')])\<close>
proof (intro conjI)
  show \<open>tc_name call_3 \<notin> set offered_tools\<close>
    by (simp add: call_3_def offered_tools_def)
qed (simp_all only: example_turn_unknown_second chat_endpoint_def, simp_all)

text \<open>
  C2, amended. In a turn that returns and whose first reply requested tool calls, the
  messages appended after the user message hold one assistant message per request, in
  the order of the requests, each with a null content and a tool-call list of just that
  request, and each immediately before the tool message of that request. The request
  list as a whole is the tool-call list of a single message only when it has exactly
  one request.
\<close>

theorem one_call_message_per_request:
  assumes turn: "process_message lib self sid txt = (Inr resp, self')"
    and first: "client self \<lparr>req_model = ''gpt-4o'',
        req_messages = history_of self sid @ [user_message txt],
        req_tools = offered_tools\<rparr> = Inr first"
    and calls: "requested first \<noteq> []"
  shows "\<exists>app.
      conversations self' sid = Some (history_of self sid @ [user_message txt] @ app)
    \<and> call_messages app = map (\<lambda>tc. assistant_call_message [tc]) (requested first)
    \<and> (\<forall>i < length (requested first).
          app ! (2 * i) = assistant_call_message [requested first ! i]
        \<and> content (app ! (2 * i)) = None
        \<and> role (app ! (2 * i + 1)) = Tool
        \<and> tool_call_id (app ! (2 * i + 1)) = Some (tc_id (requested first ! i)))
    \<and> (length (requested first) = 1 \<longrightarrow>
          call_messages app = [assistant_call_message (requested first)])"
proof -
  let ?h1 = "history_of self sid @ [user_message txt]"
  let ?tcs = "requested first"
  from turn_history [OF turn] first obtain rs where
    len: "length rs = length ?tcs"
    and s: "self' = store self sid
         (?h1 @ concat (map2 (appended_for lib) ?tcs rs) @ [assistant_message resp])"
    by auto
  let ?pairs = "concat (map2 (appended_for lib) ?tcs rs)"
  let ?app = "?pairs @ [assistant_message resp]"
  have conv: "conversations self' sid = Some (history_of self sid @ [user_message txt] @ ?app)"
    using s by (simp add: store_def)
  have cm: "call_messages ?app = map (\<lambda>tc. assistant_call_message [tc]) ?tcs"
    using pairs_call_messages [OF len, of lib]
    by (simp add: call_messages_def assistant_message_def)
  have idx: "?app ! (2 * i) = assistant_call_message [?tcs ! i]
        \<and> content (?app ! (2 * i)) = None
        \<and> role (?app ! (2 * i + 1)) = Tool
        \<and> tool_call_id (?app ! (2 * i + 1)) = Some (tc_id (?tcs ! i))"
    if i: "i < length ?tcs" for i
  proof -
    have l: "length ?pairs = 2 * length ?tcs" using len by (rule pairs_length)
    have "2 * i < length ?pairs" "2 * i + 1 < length ?pairs" using i l by simp_all
    then have "?app ! (2 * i) = ?pairs ! (2 * i)" "?app ! (2 * i + 1) = ?pairs ! (2 * i + 1)"
      by (simp_all add: nth_append)
    with pairs_nth [OF len i, of lib] show ?thesis
      by (simp add: assistant_call_message_def tool_message_def)
  qed
  have one: "call_messages ?app = [assistant_call_message ?tcs]" if "length ?tcs = 1"
  proof -
    from that obtain tc where "?tcs = [tc]" by (cases ?tcs) auto
    with cm show ?thesis by simp
  qed
  show ?thesis
    by (rule exI [of _ ?app]) (use conv cm idx one in blast)
qed

theorem one_call_message_per_request_witness:
  "\<exists>app.
      conversations
        (store (example_bot (reply_calls [call_1, call_2]) (reply_text ''ok'')) ''s1''
          (get_initial_conversation @ [user_message ''hi''] @ app)) ''s1''
        = Some (get_initial_conversation @ [user_message ''hi''] @ app)
    \<and> call_messages app = [assistant_call_message [call_1], assistant_call_message [call_2]]
    \<and> app ! 0 = assistant_call_message [call_1]
    \<and> role (app ! 1) = Tool
    \<and> app ! 2 = assistant_call_message [call_2]
    \<and> tool_call_id (app ! 3) = Some ''call_2''"
proof -
  let ?bot = "example_bot (reply_calls [call_1, call_2]) (reply_text ''ok'')"
  have calls: "requested (reply_calls [call_1, call_2]) \<noteq> []"
    by (simp add: example_requested)
  from one_call_message_per_request [OF example_turn_two_calls example_first_reply calls]
  obtain app where
    cm: "call_messages app
       = map (\<lambda>tc. assistant_call_message [tc]) (requested (reply_calls [call_1, call_2]))"
    and idx: "\<forall>i < length (requested (reply_calls [call_1, call_2])).
          app ! (2 * i) = assistant_call_message [requested (reply_calls [call_1, call_2]) ! i]
        \<and> content (app ! (2 * i)) = None
        \<and> role (app ! (2 * i + 1)) = Tool
        \<and> tool_call_id (app ! (2 * i + 1))
            = Some (tc_id (requested (reply_calls [call_1, call_2]) ! i))"
    by blast
  have i0: "0 < length (requested (reply_calls [call_1, call_2]))"
    and i1: "1 < length (requested (reply_calls [call_1, call_2]))"
    by (simp_all add: example_requested)
  note at0 = idx [rule_format, OF i0] and at1 = idx [rule_format, OF i1]
  have "call_messages app = [assistant_call_message [call_1], assistant_call_message [call_2]]
    \<and> app ! 0 = assistant_call_message [call_1]
    \<and> role (app ! 1) = Tool
    \<and> app ! 2 = assistant_call_message [call_2]
    \<and> tool_call_id (app ! 3) = Some ''call_2''"
    using cm at0 at1 by (simp add: example_requested call_2_def numeral_3_eq_3)
  then show ?thesis
    by (intro exI [of _ app]) (simp add: store_def)
qed

text \<open>
  C2 as stated fails: with two requests the history gets two assistant messages with
  one call each, and none that carries the request list.
\<close>

theorem single_call_message_counterexample:
  \<open>fst (process_message example_lib
          (example_bot (reply_calls [call_1, call_2]) (reply_text ''ok'')) ''s1'' ''hi'')
     = Inr (Some ''ok'')
   \<and> requested (reply_calls [call_1, call_2]) = [call_1, call_2]
   \<and> map_option call_messages
        (conversations
          (snd (process_message example_lib
                 (example_bot (reply_calls [call_1, call_2]) (reply_text ''ok'')) ''s1'' ''hi''))
          ''s1'')
     = Some [assistant_call_message [call_1], assistant_call_message [call_2]]
   \<and> [assistant_call_message [call_1], assistant_call_message [call_2]]
       \<noteq> [assistant_call_message [call_1, call_2]]\<close>
  by (simp add: example_turn_two_calls example_requested store_def call_messages_def
        system_message_def user_message_def assistant_call_message_def tool_message_def
        assistant_message_def)

section \<open>The seed of a session\<close>

lemma process_message_depends:
  assumes "history_of a sid = history_of b sid" "client a = client b" "mock a = mock b"
  shows "fst (process_message lib a sid txt) = fst (process_message lib b sid txt)
    \<and> conversations (snd (process_message lib a sid txt)) sid
        = conversations (snd (process_message lib b sid txt)) sid"
  using assms
  by (simp add: process_message_def Let_def store_def split: sum.splits prod.splits option.splits)

lemma process_message_history:
  "\<exists>rest. conversations (snd (process_message lib self sid txt)) sid
       = Some (history_of self sid @ user_message txt # rest)
     \<and> list_all (\<lambda>m. role m \<noteq> System) rest"
proof -
  from process_message_extends [of lib self sid "txt"] obtain rest where
    s: "snd (process_message lib self sid txt)
       = store self sid (history_of self sid @ user_message txt # rest)"
    and r: "list_all (\<lambda>m. role m = Assistant \<or> role m = Tool) rest"
    by blast
  from r have "list_all (\<lambda>m. role m \<noteq> System) rest"
    by (induction rest) auto
  moreover from s have "conversations (snd (process_message lib self sid txt)) sid
       = Some (history_of self sid @ user_message txt # rest)"
    by (simp add: store_def)
  ultimately show ?thesis by blast
qed

lemma run_turns_seeded:
  "conversations self sid = Some (system_message system_prompt # rest) \<Longrightarrow>
   list_all (\<lambda>m. role m \<noteq> System) rest \<Longrightarrow>
   \<exists>rest'. conversations (run_turns lib self sid ts) sid
       = Some (system_message system_prompt # rest')
     \<and> list_all (\<lambda>m. role m \<noteq> System) rest'"
proof (induction ts arbitrary: self rest)
  case Nil
  then show ?case by simp
next
  case (Cons t ts)
  from process_message_history [of lib self sid t] obtain extra where
    m: "conversations (snd (process_message lib self sid t)) sid
       = Some (history_of self sid @ user_message t # extra)"
       "list_all (\<lambda>m. role m \<noteq> System) extra"
    by blast
  have "conversations (snd (process_message lib self sid t)) sid
       = Some (system_message system_prompt # (rest @ user_message t # extra))"
    using m(1) Cons.prems(1) by (simp add: history_of_def)
  moreover have "list_all (\<lambda>m. role m \<noteq> System) (rest @ user_message t # extra)"
    using m(2) Cons.prems(2) by (simp add: user_message_def)
  ultimately show ?case
    using Cons.IH by simp
qed

text \<open>
  C7. A turn on an identifier that has no session leaves a history that starts with
  the fixed system message and the user message, and no later message of it is a
  system message; this holds whatever the outcome of the turn. A turn on an existing
  session keeps the history and appends the user message and messages that are not
  system messages, so after any number of turns on a new session the system message
  is the first message and the only one of its role. A turn after \<open>end_session\<close>
  on the same identifier gives the history that the same turn gives on a chatbot with
  no sessions at all: seeded anew, with nothing of the deleted history.
\<close>

theorem system_message_once:
  "(conversations self sid = None \<longrightarrow>
      (\<exists>rest. conversations (snd (process_message lib self sid txt)) sid
           = Some (system_message system_prompt # user_message txt # rest)
         \<and> list_all (\<lambda>m. role m \<noteq> System) rest))
   \<and> (\<forall>h. conversations self sid = Some h \<longrightarrow>
      (\<exists>rest. conversations (snd (process_message lib self sid txt)) sid
           = Some (h @ user_message txt # rest)
         \<and> list_all (\<lambda>m. role m \<noteq> System) rest))
   \<and> (conversations self sid = None \<longrightarrow>
      (\<exists>rest. conversations (run_turns lib self sid (txt # later)) sid
           = Some (system_message system_prompt # rest)
         \<and> list_all (\<lambda>m. role m \<noteq> System) rest))
   \<and> (\<exists>rest. conversations (snd (process_message lib (snd (end_session self sid)) sid txt)) sid
           = Some (system_message system_prompt # user_message txt # rest)
         \<and> list_all (\<lambda>m. role m \<noteq> System) rest)
   \<and> conversations (snd (process_message lib (snd (end_session self sid)) sid txt)) sid
       = conversations (snd (process_message lib (self\<lparr>conversations := Map.empty\<rparr>) sid txt)) sid"
proof (intro conjI impI allI)
  assume "conversations self sid = None"
  then have "history_of self sid = [system_message system_prompt]"
    by (simp add: history_of_def get_initial_conversation_def)
  with process_message_history [of lib self sid "txt"]
  show "\<exists>rest. conversations (snd (process_message lib self sid txt)) sid
           = Some (system_message system_prompt # user_message txt # rest)
         \<and> list_all (\<lambda>m. role m \<noteq> System) rest"
    by simp
next
  fix h assume "conversations self sid = Some h"
  then have "history_of self sid = h" by (simp add: history_of_def)
  with process_message_history [of lib self sid "txt"]
  show "\<exists>rest. conversations (snd (process_message lib self sid txt)) sid
           = Some (h @ user_message txt # rest)
         \<and> list_all (\<lambda>m. role m \<noteq> System) rest"
    by simp
next
  assume "conversations self sid = None"
  then have "history_of self sid = [system_message system_prompt]"
    by (simp add: history_of_def get_initial_conversation_def)
  with process_message_history [of lib self sid "txt"] obtain rest where
    "conversations (snd (process_message lib self sid txt)) sid
       = Some (system_message system_prompt # (user_message txt # rest))"
    "list_all (\<lambda>m. role m \<noteq> System) (user_message txt # rest)"
    by (auto simp: user_message_def)
  from run_turns_seeded [OF this, of lib later]
  show "\<exists>rest. conversations (run_turns lib self sid (txt # later)) sid
           = Some (system_message system_prompt # rest)
         \<and> list_all (\<lambda>m. role m \<noteq> System) rest"
    by simp
next
  have "history_of (snd (end_session self sid)) sid = [system_message system_prompt]"
    by (simp add: history_of_def get_initial_conversation_def end_session_conversations)
  with process_message_history [of lib "snd (end_session self sid)" sid "txt"]
  show "\<exists>rest. conversations (snd (process_message lib (snd (end_session self sid)) sid txt)) sid
           = Some (system_message system_prompt # user_message txt # rest)
         \<and> list_all (\<lambda>m. role m \<noteq> System) rest"
    by simp
next
  have "history_of (snd (end_session self sid)) sid
      = history_of (self\<lparr>conversations := Map.empty\<rparr>) sid"
    "client (snd (end_session self sid)) = client (self\<lparr>conversations := Map.empty\<rparr>)"
    "mock (snd (end_session self sid)) = mock (self\<lparr>conversations := Map.empty\<rparr>)"
    by (simp_all add: history_of_def end_session_def)
  from process_message_depends [OF this]
  show "conversations (snd (process_message lib (snd (end_session self sid)) sid txt)) sid
       = conversations (snd (process_message lib (self\<lparr>conversations := Map.empty\<rparr>) sid txt)) sid"
    by blast
qed

lemma example_turn_text:
  "process_message example_lib (example_bot (reply_text ''ok'') (reply_text ''ok'')) ''s1'' ''hi''
   = (Inr (Some ''ok''),
      store (example_bot (reply_text ''ok'') (reply_text ''ok'')) ''s1''
        [system_message system_prompt, user_message ''hi'', assistant_message (Some ''ok'')])"
  by (simp add: example_defs)

theorem system_message_once_witness:
  "(\<exists>rest. conversations
        (snd (process_message example_lib
               (example_bot (reply_text ''ok'') (reply_text ''ok'')) ''s1'' ''hi'')) ''s1''
           = Some (system_message system_prompt # user_message ''hi'' # rest)
         \<and> list_all (\<lambda>m. role m \<noteq> System) rest)
   \<and> (\<exists>rest. conversations
        (snd (process_message example_lib
               (store (example_bot (reply_text ''ok'') (reply_text ''ok'')) ''s1''
                  [system_message system_prompt, user_message ''hi'',
                   assistant_message (Some ''ok'')])
               ''s1'' ''again'')) ''s1''
           = Some ([system_message system_prompt, user_message ''hi'',
                    assistant_message (Some ''ok'')] @ user_message ''again'' # rest)
         \<and> list_all (\<lambda>m. role m \<noteq> System) rest)"
proof -
  let ?bot = "example_bot (reply_text ''ok'') (reply_text ''ok'')"
  let ?h = "[system_message system_prompt, user_message ''hi'', assistant_message (Some ''ok'')]"
  have fresh: "conversations ?bot ''s1'' = None"
    by (simp add: example_bot_def)
  have known: "conversations (store ?bot ''s1'' ?h) ''s1'' = Some ?h"
    by (simp add: store_def)
  from system_message_once [of ?bot "''s1''" example_lib "''hi''" "[]"] fresh
  have a: "\<exists>rest. conversations (snd (process_message example_lib ?bot ''s1'' ''hi'')) ''s1''
           = Some (system_message system_prompt # user_message ''hi'' # rest)
         \<and> list_all (\<lambda>m. role m \<noteq> System) rest"
    by blast
  from system_message_once [of "store ?bot ''s1'' ?h" "''s1''" example_lib "''again''" "[]"] known
  have b: "\<exists>rest. conversations
        (snd (process_message example_lib (store ?bot ''s1'' ?h) ''s1'' ''again'')) ''s1''
           = Some (?h @ user_message ''again'' # rest)
         \<and> list_all (\<lambda>m. role m \<noteq> System) rest"
    by blast
  from a b show ?thesis by (rule conjI)
qed

section \<open>The follow-up reply\<close>

text \<open>
  C4, amended. When the loop over the tool calls of the first reply has completed and
  the follow-up call returns a reply, the turn returns the content of that reply,
  null or not, and appends one assistant message with it. Tool calls that the
  follow-up reply requests are not looked at: the tool messages and the assistant
  call messages that the turn appended are those of the first reply's requests.
\<close>

theorem follow_up_tool_calls_ignored:
  assumes first: "client self \<lparr>req_model = ''gpt-4o'',
        req_messages = history_of self sid @ [user_message txt],
        req_tools = offered_tools\<rparr> = Inr first"
    and calls: "requested first \<noteq> []"
    and run: "run_tool_calls lib (mock self) None (history_of self sid @ [user_message txt])
           (requested first) = (None, h2)"
    and second: "client self \<lparr>req_model = ''gpt-4'', req_messages = h2, req_tools = []\<rparr>
           = Inr second"
  shows "process_message lib self sid txt
       = (Inr (reply_content second),
          store self sid (h2 @ [assistant_message (reply_content second)]))
     \<and> map tool_call_id
         (tool_messages (drop (length (history_of self sid @ [user_message txt]))
            (h2 @ [assistant_message (reply_content second)])))
       = map (\<lambda>tc. Some (tc_id tc)) (requested first)
     \<and> call_messages (drop (length (history_of self sid @ [user_message txt]))
            (h2 @ [assistant_message (reply_content second)]))
       = map (\<lambda>tc. assistant_call_message [tc]) (requested first)"
proof -
  let ?h1 = "history_of self sid @ [user_message txt]"
  from run obtain rs where d: "dispatched lib (mock self) None (requested first) rs"
    and h2: "h2 = ?h1 @ concat (map2 (appended_for lib) (requested first) rs)"
    unfolding run_tool_calls_completed_iff by blast
  have len: "length rs = length (requested first)" using d by (rule dispatched_length)
  have dr: "drop (length ?h1) (h2 @ [assistant_message (reply_content second)])
      = concat (map2 (appended_for lib) (requested first) rs)
          @ [assistant_message (reply_content second)]"
    unfolding h2 by simp
  have "process_message lib self sid txt
       = (Inr (reply_content second),
          store self sid (h2 @ [assistant_message (reply_content second)]))"
    using process_message_after_tools [OF first calls run] second by simp
  moreover have "map tool_call_id
         (tool_messages (drop (length ?h1) (h2 @ [assistant_message (reply_content second)])))
       = map (\<lambda>tc. Some (tc_id tc)) (requested first)"
    unfolding dr using pairs_tool_ids [OF len, of lib]
    by (simp add: tool_messages_def assistant_message_def)
  moreover have "call_messages (drop (length ?h1) (h2 @ [assistant_message (reply_content second)]))
       = map (\<lambda>tc. assistant_call_message [tc]) (requested first)"
    unfolding dr using pairs_call_messages [OF len, of lib]
    by (simp add: call_messages_def assistant_message_def)
  ultimately show ?thesis by blast
qed

lemma example_run_one_call:
  \<open>run_tool_calls example_lib
      (mock (example_bot (reply_calls [call_1])
               \<lparr>reply_content = None, reply_tool_calls = Some [call_2]\<rparr>))
      None
      (history_of (example_bot (reply_calls [call_1])
               \<lparr>reply_content = None, reply_tool_calls = Some [call_2]\<rparr>) ''s1''
         @ [user_message ''hi''])
      (requested (reply_calls [call_1]))
   = (None,
      [system_message system_prompt, user_message ''hi'',
       assistant_call_message [call_1],
       tool_message ''call_1''
         ''{"valid": true, "message": "Account found", "account_status": "active"}''])\<close>
  by (simp add: example_defs)

theorem follow_up_tool_calls_ignored_witness:
  \<open>process_message example_lib
      (example_bot (reply_calls [call_1]) \<lparr>reply_content = None, reply_tool_calls = Some [call_2]\<rparr>)
      ''s1'' ''hi''
   = (Inr None,
      store (example_bot (reply_calls [call_1])
               \<lparr>reply_content = None, reply_tool_calls = Some [call_2]\<rparr>) ''s1''
        [system_message system_prompt, user_message ''hi'',
         assistant_call_message [call_1],
         tool_message ''call_1''
           ''{"valid": true, "message": "Account found", "account_status": "active"}'',
         assistant_message None])\<close>
proof -
  let ?second = "\<lparr>reply_content = None, reply_tool_calls = Some [call_2]\<rparr>"
  let ?bot = "example_bot (reply_calls [call_1]) ?second"
  have calls: "requested (reply_calls [call_1]) \<noteq> []"
    by (simp add: example_requested)
  have second: "client ?bot \<lparr>req_model = ''gpt-4'', req_messages = h, req_tools = []\<rparr>
      = Inr ?second" for h
    by (simp add: example_bot_def scripted_def)
  from follow_up_tool_calls_ignored [OF example_first_reply calls example_run_one_call second]
  show ?thesis by simp
qed

text \<open>
  C4 as stated fails: the follow-up reply requests \<open>call_2\<close>; the turn returns
  normally with a null text, the endpoint answers 200, and the history has neither a
  tool message for \<open>call_2\<close> nor an error.
\<close>

theorem follow_up_tool_calls_counterexample:
  \<open>fst (process_message example_lib
      (example_bot (reply_calls [call_1]) \<lparr>reply_content = None, reply_tool_calls = Some [call_2]\<rparr>)
      ''s1'' ''hi'') = Inr None
   \<and> fst (chat_endpoint example_lib
      (example_bot (reply_calls [call_1]) \<lparr>reply_content = None, reply_tool_calls = Some [call_2]\<rparr>)
      ''s1'' ''hi'') = Ok200 (PDict [(''response'', PNone)])
   \<and> requested \<lparr>reply_content = None, reply_tool_calls = Some [call_2]\<rparr> = [call_2]
   \<and> conversations (snd (process_message example_lib
      (example_bot (reply_calls [call_1]) \<lparr>reply_content = None, reply_tool_calls = Some [call_2]\<rparr>)
      ''s1'' ''hi'')) ''s1''
     = Some [system_message system_prompt, user_message ''hi'',
         assistant_call_message [call_1],
         tool_message ''call_1''
           ''{"valid": true, "message": "Account found", "account_status": "active"}'',
         assistant_message None]\<close>
  by (simp add: example_turn_follow_up_calls chat_endpoint_def requested_def store_def)

section \<open>A null PIN and a missing account\<close>

lemma example_turn_null_pin:
  \<open>process_message example_lib (example_bot (reply_calls [call_4]) (reply_text ''ok''))
      ''s1'' ''hi''
   = (Inr (Some ''ok''),
      store (example_bot (reply_calls [call_4]) (reply_text ''ok'')) ''s1''
        [system_message system_prompt, user_message ''hi'',
         assistant_call_message [call_4],
         tool_message ''call_4'' ''{"valid": true, "message": "PIN validated"}'',
         assistant_message (Some ''ok'')])\<close>
  by (simp add: example_defs)

text \<open>
  C5. \<open>validate_account_and_pin\<close> compares the stored PIN, or \<open>None\<close> when the
  record has none, with the PIN supplied. The empty dictionary that \<open>get_account\<close>
  returns for a missing account has no PIN, so for an account number without a
  record and the PIN \<open>None\<close> the comparison is \<open>None == None\<close> and the function
  returns true. The example data have no account \<open>99999\<close>; the tool call
  \<open>validate_pin\<close> with that account number and a null PIN reports
  \<open>PIN validated\<close>, and the turn that requests it completes.
\<close>

theorem validate_account_and_pin_null_pin:
  \<open>map_of (accounts example_data) ''99999'' = None
   \<and> validate_account_and_pin example_data (PStr ''99999'') PNone = Inr True
   \<and> validate_pin example_data (PStr ''99999'') PNone
       = Inr (PDict [(''valid'', PBool True), (''message'', PStr ''PIN validated'')])
   \<and> json_loads example_lib (tc_arguments call_4)
       = Some (PDict [(''account_number'', PStr ''99999''), (''pin'', PNone)])
   \<and> process_message example_lib (example_bot (reply_calls [call_4]) (reply_text ''ok''))
        ''s1'' ''hi''
     = (Inr (Some ''ok''),
        store (example_bot (reply_calls [call_4]) (reply_text ''ok'')) ''s1''
          [system_message system_prompt, user_message ''hi'',
           assistant_call_message [call_4],
           tool_message ''call_4'' ''{"valid": true, "message": "PIN validated"}'',
           assistant_message (Some ''ok'')])\<close>
proof (intro conjI)
  show a: "map_of (accounts example_data) ''99999'' = None"
    by (simp add: example_data_def)
  from a show v: "validate_account_and_pin example_data (PStr ''99999'') PNone = Inr True"
    by (rule validate_null_pin_missing_account)
  from v show "validate_pin example_data (PStr ''99999'') PNone
       = Inr (PDict [(''valid'', PBool True), (''message'', PStr ''PIN validated'')])"
    by (simp add: validate_pin_def and_then_def)
  show \<open>json_loads example_lib (tc_arguments call_4)
       = Some (PDict [(''account_number'', PStr ''99999''), (''pin'', PNone)])\<close>
    by (simp add: example_lib_def call_4_def)
qed (rule example_turn_null_pin)

section \<open>The balance of the fixture account\<close>

lemma round_cents_nonneg: "0 \<le> e \<Longrightarrow> round_cents m e = nat \<bar>m\<bar> * 100 * 2 ^ nat e"
  by (simp add: round_cents_def)

lemma round_cents_exact:
  "e < 0 \<Longrightarrow> nat \<bar>m\<bar> * 100 = c * 2 ^ nat (- e) \<Longrightarrow> round_cents m e = c"
  by (simp add: round_cents_def Let_def)

lemma float_500:
  assumes "dyadic_eq (m, e) (500, 0)"
  shows "round_cents m e = 50000 \<and> 0 \<le> m"
proof (cases "e \<le> 0")
  case True
  with assms have m: "m = 500 * 2 ^ nat (- e)" by (simp add: dyadic_eq_def)
  show ?thesis
  proof (cases "e = 0")
    case True
    with m show ?thesis by (simp add: round_cents_def)
  next
    case False
    with \<open>e \<le> 0\<close> have neg: "e < 0" by simp
    have "nat \<bar>m\<bar> * 100 = 50000 * 2 ^ nat (- e)"
      unfolding m by (simp add: nat_mult_distrib nat_power_eq abs_mult)
    from round_cents_exact [OF neg this] m show ?thesis by simp
  qed
next
  case False
  with assms have m: "m * 2 ^ nat e = 500" by (simp add: dyadic_eq_def)
  have pos: "0 \<le> m"
  proof (rule ccontr)
    assume "\<not> 0 \<le> m"
    then have "m * 2 ^ nat e < 0" by (simp add: mult_less_0_iff)
    with m show False by simp
  qed
  have "int (nat \<bar>m\<bar> * 100 * 2 ^ nat e) = (m * 2 ^ nat e) * 100"
    using pos by simp
  also have "\<dots> = 50000" unfolding m by simp
  finally have "nat \<bar>m\<bar> * 100 * 2 ^ nat e = 50000" by linarith
  with False pos show ?thesis by (simp add: round_cents_nonneg)
qed

lemma format_500:
  assumes "py_eq v (PFloat 500 0)"
  shows "format_comma_2f v = Inr ''500.00''"
proof (cases v)
  case (PFloat m e)
  with assms have "dyadic_eq (m, e) (500, 0)" by (simp add: num_val_def)
  from float_500 [OF this] PFloat show ?thesis
    by (simp add: format_comma_2f_def float_for_format_def and_then_def
          format_float_comma_2f_def nat_digits.simps group3.simps)
next
  case (PInt n)
  with assms have "n = 500" by (simp add: num_val_def dyadic_eq_def)
  with PInt show ?thesis
    by (simp add: format_comma_2f_def float_for_format_def int_to_float_def bit_length.simps
          and_then_def format_float_comma_2f_def round_cents_def nat_digits.simps group3.simps)
next
  case (PBool b)
  with assms show ?thesis by (simp add: num_val_def dyadic_eq_def split: if_splits)
qed (use assms in \<open>simp_all add: num_val_def\<close>)









section \<open>Digits, grouping and rounding\<close>

lemma digit_char:
  assumes "k < 10"
  shows "is_digit (''0123456789'' ! k) \<and> (of_char (''0123456789'' ! k) :: nat) = 48 + k"
proof -
  from assms have "k \<in> {0, 1, 2, 3, 4, 5, 6, 7, 8, 9}" by auto
  then show ?thesis by (auto simp: is_digit_def)
qed

lemma decimal_value_snoc:
  "decimal_value (ds @ [c]) = 10 * decimal_value ds + (of_char c - 48)"
  by (simp add: decimal_value_def)

lemma nat_digits_digits: "list_all is_digit (nat_digits n)"
proof (induction n rule: nat_digits.induct)
  case (1 n)
  show ?case
  proof (cases "n < 10")
    case True
    then show ?thesis by (simp add: nat_digits.simps [of n] digit_char)
  next
    case False
    have "n mod 10 < 10" by simp
    with False 1 show ?thesis by (simp add: nat_digits.simps [of n] digit_char)
  qed
qed

lemma nat_digits_value: "decimal_value (nat_digits n) = n"
proof (induction n rule: nat_digits.induct)
  case (1 n)
  show ?case
  proof (cases "n < 10")
    case True
    then show ?thesis by (simp add: nat_digits.simps [of n] digit_char decimal_value_def)
  next
    case False
    have "n mod 10 < 10" by simp
    with False 1 show ?thesis
      by (simp add: nat_digits.simps [of n] digit_char decimal_value_snoc)
  qed
qed

lemma nat_digits_nonempty: "nat_digits n \<noteq> []"
  by (subst nat_digits.simps) simp

lemma nat_digits_leading:
  "nat_digits n = ''0'' \<or> hd (nat_digits n) \<noteq> CHR ''0''"
proof (induction n rule: nat_digits.induct)
  case (1 n)
  show ?case
  proof (cases "n < 10")
    case True
    then have "n \<in> {0, 1, 2, 3, 4, 5, 6, 7, 8, 9}" by auto
    then show ?thesis by (auto simp: nat_digits.simps [of n])
  next
    case False
    then have pos: "n div 10 \<noteq> 0" by simp
    have "nat_digits (n div 10) \<noteq> ''0''"
    proof
      assume a: "nat_digits (n div 10) = ''0''"
      have "n div 10 = decimal_value (nat_digits (n div 10))"
        by (simp only: nat_digits_value)
      also have "\<dots> = decimal_value ''0''" by (simp only: a)
      also have "\<dots> = 0" by (simp add: decimal_value_def)
      finally show False using pos by simp
    qed
    with 1 False have "hd (nat_digits (n div 10)) \<noteq> CHR ''0''" by simp
    with False show ?thesis
      by (simp add: nat_digits.simps [of n] nat_digits_nonempty)
  qed
qed

lemma group3_filter:
  "filter (\<lambda>c. c \<noteq> CHR '','') (group3 ds) = filter (\<lambda>c. c \<noteq> CHR '','') ds"
proof (induction ds rule: group3.induct)
  case (1 ds)
  show ?case
  proof (cases "length ds \<le> 3")
    case True
    then show ?thesis by (simp add: group3.simps [of ds])
  next
    case False
    have "filter (\<lambda>c. c \<noteq> CHR '','') (group3 ds)
        = filter (\<lambda>c. c \<noteq> CHR '','') (take (length ds - 3) ds)
          @ filter (\<lambda>c. c \<noteq> CHR '','') (drop (length ds - 3) ds)"
      using False 1 by (simp add: group3.simps [of ds])
    also have "\<dots> = filter (\<lambda>c. c \<noteq> CHR '','') (take (length ds - 3) ds @ drop (length ds - 3) ds)"
      by (simp only: filter_append)
    finally show ?thesis by simp
  qed
qed

lemma group3_length_mod: "ds \<noteq> [] \<Longrightarrow> length (group3 ds) mod 4 \<noteq> 0"
proof (induction ds rule: group3.induct)
  case (1 ds)
  show ?case
  proof (cases "length ds \<le> 3")
    case True
    from 1(2) have "0 < length ds" by simp
    with True have "length ds mod 4 \<noteq> 0" by arith
    with True show ?thesis by (simp add: group3.simps [of ds])
  next
    case False
    then have "take (length ds - 3) ds \<noteq> []" by auto
    with 1(1) False have "length (group3 (take (length ds - 3) ds)) mod 4 \<noteq> 0" by simp
    moreover have "length (group3 ds) = length (group3 (take (length ds - 3) ds)) + 4"
      using False by (simp add: group3.simps [of ds])
    ultimately show ?thesis by simp
  qed
qed

lemma group3_commas:
  "CHR '','' \<notin> set ds \<Longrightarrow> i < length (group3 ds) \<Longrightarrow>
     (group3 ds ! i = CHR '','') = ((length (group3 ds) - i) mod 4 = 0)"
proof (induction ds arbitrary: i rule: group3.induct)
  case (1 ds)
  note IH = "1.IH" and no_comma = "1.prems"(1) and bound = "1.prems"(2)
  show ?case
  proof (cases "length ds \<le> 3")
    case True
    then have g: "group3 ds = ds" by (simp add: group3.simps [of ds])
    from bound g have i: "i < length ds" by simp
    then have "ds ! i \<in> set ds" by (rule nth_mem)
    with no_comma have a: "ds ! i \<noteq> CHR '',''" by auto
    from i True have "(length ds - i) mod 4 \<noteq> 0" by presburger
    with a show ?thesis by (simp add: g)
  next
    case False
    define p where "p = take (length ds - 3) ds"
    define s where "s = drop (length ds - 3) ds"
    define L where "L = length (group3 p)"
    define n where "n = length (group3 ds)"
    have g: "group3 ds = group3 p @ CHR '','' # s"
      unfolding p_def s_def using False by (subst group3.simps) simp
    have ls: "length s = 3" unfolding s_def using False by simp
    have len: "n = L + 4" unfolding n_def L_def g using ls by simp
    have np: "CHR '','' \<notin> set p"
      unfolding p_def using no_comma by (auto dest: in_set_takeD)
    have ns: "CHR '','' \<notin> set s"
      unfolding s_def using no_comma by (auto dest: in_set_dropD)
    have i: "i < n" using bound by (simp add: n_def)
    consider (before) "i < L" | (at) "i = L" | (after) "L < i" by linarith
    then have "(group3 ds ! i = CHR '','') = ((n - i) mod 4 = 0)"
    proof cases
      case before
      then have "group3 ds ! i = group3 p ! i"
        unfolding g L_def by (simp add: nth_append)
      then have "(group3 ds ! i = CHR '','') = (group3 p ! i = CHR '','')" by simp
      also have "\<dots> = ((L - i) mod 4 = 0)"
        unfolding L_def p_def
        by (rule IH [OF False]) (use np before in \<open>simp_all add: p_def L_def\<close>)
      also have "\<dots> = ((n - i) mod 4 = 0)"
        using before len by presburger
      finally show ?thesis .
    next
      case at
      then have "group3 ds ! i = CHR '',''"
        unfolding g L_def by (simp add: nth_append)
      moreover have "(n - i) mod 4 = 0" using at len by simp
      ultimately show ?thesis by simp
    next
      case after
      define j where "j = i - L - 1"
      with after have j: "i = L + 1 + j" by simp
      with i len have j3: "j < 3" by simp
      have "group3 ds ! i = s ! j"
        unfolding g j L_def by (simp add: nth_append)
      moreover have "s ! j \<in> set s" using j3 ls by simp
      ultimately have a: "group3 ds ! i \<noteq> CHR '',''" using ns by auto
      have "(n - i) mod 4 \<noteq> 0" using j j3 len by presburger
      with a show ?thesis by simp
    qed
    then show ?thesis by (simp only: n_def)
  qed
qed

lemma round_cents_bound:
  "(0 \<le> e \<longrightarrow> int (round_cents m e) = \<bar>m\<bar> * 100 * 2 ^ nat e)
   \<and> (e < 0 \<longrightarrow> 2 * \<bar>int (round_cents m e) * 2 ^ nat (- e) - \<bar>m\<bar> * 100\<bar> \<le> 2 ^ nat (- e))"
proof (intro conjI impI)
  assume "0 \<le> e"
  then show "int (round_cents m e) = \<bar>m\<bar> * 100 * 2 ^ nat e"
    by (simp add: round_cents_def)
next
  assume neg: "e < 0"
  define a where "a = nat \<bar>m\<bar> * 100"
  define d :: nat where "d = 2 ^ nat (- e)"
  have d: "0 < d" by (simp add: d_def)
  have a: "a = (a div d) * d + a mod d" by simp
  have r: "a mod d < d" using d by simp
  have rc: "round_cents m e =
      (if 2 * (a mod d) < d then a div d
       else if 2 * (a mod d) > d then a div d + 1
       else if even (a div d) then a div d else a div d + 1)"
    using neg by (simp add: round_cents_def Let_def a_def d_def)
  have "2 * \<bar>int (round_cents m e) * int d - int a\<bar> \<le> int d"
  proof -
    define Q where "Q = int (a div d)"
    define R where "R = int (a mod d)"
    define D where "D = int d"
    have ia: "int a = Q * D + R"
      unfolding Q_def R_def D_def by (metis a of_nat_add of_nat_mult)
    have ir: "R < D" "0 \<le> R" using r by (simp_all add: R_def D_def)
    have up: "(Q + 1) * D - (Q * D + R) = D - R" by (simp add: algebra_simps)
    have dn: "Q * D - (Q * D + R) = - R" by simp
    have cmp: "(2 * (a mod d) < d) = (2 * R < D)" "(d < 2 * (a mod d)) = (D < 2 * R)"
      unfolding R_def D_def by linarith+
    have less: "2 * \<bar>int (a div d) * int d - int a\<bar> \<le> int d" if "2 * R \<le> D"
    proof -
      have "int (a div d) * int d - int a = - R"
        unfolding ia by (simp add: Q_def D_def)
      with that ir show ?thesis by (simp add: D_def)
    qed
    have more: "2 * \<bar>int (a div d + 1) * int d - int a\<bar> \<le> int d" if "D \<le> 2 * R"
    proof -
      have "int (a div d + 1) * int d - int a = (Q + 1) * D - (Q * D + R)"
        unfolding ia by (simp add: Q_def D_def)
      then have "int (a div d + 1) * int d - int a = D - R" by (simp only: up)
      with that ir show ?thesis by (simp add: D_def)
    qed
    show ?thesis
    proof (cases "2 * R < D")
      case True
      then have "round_cents m e = a div d" unfolding rc using cmp by simp
      with less True show ?thesis by simp
    next
      case False
      show ?thesis
      proof (cases "D < 2 * R")
        case True
        with False have "round_cents m e = a div d + 1" unfolding rc using cmp by simp
        with more True show ?thesis by simp
      next
        case tie: False
        with False have eq: "2 * R = D" by simp
        have "round_cents m e = a div d \<or> round_cents m e = a div d + 1"
          unfolding rc by simp
        with less more eq show ?thesis by auto
      qed
    qed
  qed
  moreover have "int a = \<bar>m\<bar> * 100" by (simp add: a_def)
  moreover have "int d = 2 ^ nat (- e)" by (simp add: d_def)
  ultimately show "2 * \<bar>int (round_cents m e) * 2 ^ nat (- e) - \<bar>m\<bar> * 100\<bar> \<le> 2 ^ nat (- e)"
    by simp
qed

lemma nearest_even:
  fixes a d c :: nat
  assumes d: "0 < d"
    and c: "c = (if 2 * (a mod d) < d then a div d
                 else if d < 2 * (a mod d) then a div d + 1
                 else if even (a div d) then a div d else a div d + 1)"
  shows "2 * \<bar>int c * int d - int a\<bar> \<le> int d
       \<and> (2 * \<bar>int c * int d - int a\<bar> = int d \<longrightarrow> even c)"
proof -
  define Q where "Q = int (a div d)"
  define R where "R = int (a mod d)"
  define D where "D = int d"
  define P where "P = Q * D"
  have ia: "int a = P + R"
    unfolding Q_def R_def D_def P_def by (metis div_mult_mod_eq of_nat_add of_nat_mult)
  have ir: "R < D" "0 \<le> R" using d by (simp_all add: R_def D_def)
  have cmp: "(2 * (a mod d) < d) = (2 * R < D)" "(d < 2 * (a mod d)) = (D < 2 * R)"
    unfolding R_def D_def by linarith+
  have low: "int (a div d) * int d - int a = - R"
    unfolding ia by (simp add: Q_def D_def P_def)
  have "int (a div d + 1) * int d = P + D"
    by (simp add: Q_def D_def P_def algebra_simps)
  then have high: "int (a div d + 1) * int d - int a = D - R"
    unfolding ia by simp
  consider (below) "2 * R < D" | (above) "D < 2 * R" | (tie) "2 * R = D" by linarith
  then show ?thesis
  proof cases
    case below
    then have "c = a div d" using c cmp by simp
    with low have "int c * int d - int a = - R" by simp
    moreover from below ir have "2 * \<bar>- R\<bar> < D" by arith
    ultimately have "2 * \<bar>int c * int d - int a\<bar> < int d" by (simp only: D_def)
    then show ?thesis by simp
  next
    case above
    then have "c = a div d + 1" using c cmp by simp
    with high have "int c * int d - int a = D - R" by simp
    moreover from above ir have "2 * \<bar>D - R\<bar> < D" by arith
    ultimately have "2 * \<bar>int c * int d - int a\<bar> < int d" by (simp only: D_def)
    then show ?thesis by simp
  next
    case tie
    then have n: "\<not> 2 * (a mod d) < d" "\<not> d < 2 * (a mod d)" using cmp by simp_all
    show ?thesis
    proof (cases "even (a div d)")
      case True
      with n c have cc: "c = a div d" by simp
      with low have "int c * int d - int a = - R" by simp
      moreover from tie ir have "2 * \<bar>- R\<bar> = D" by arith
      ultimately have "2 * \<bar>int c * int d - int a\<bar> = int d" by (simp only: D_def)
      with True cc show ?thesis by simp
    next
      case False
      with n c have cc: "c = a div d + 1" by simp
      from False have "even (a div d + 1)" by simp
      with cc have ev: "even c" by simp
      from cc high have "int c * int d - int a = D - R" by simp
      moreover from tie ir have "2 * \<bar>D - R\<bar> = D" by arith
      ultimately have "2 * \<bar>int c * int d - int a\<bar> = int d" by (simp only: D_def)
      with ev show ?thesis by simp
    qed
  qed
qed

lemma round_cents_nearest:
  assumes neg: "e < 0"
  shows "2 * \<bar>int (round_cents m e) * 2 ^ nat (- e) - \<bar>m\<bar> * 100\<bar> \<le> 2 ^ nat (- e)
       \<and> (2 * \<bar>int (round_cents m e) * 2 ^ nat (- e) - \<bar>m\<bar> * 100\<bar> = 2 ^ nat (- e)
            \<longrightarrow> even (round_cents m e))"
proof -
  define a where "a = nat \<bar>m\<bar> * 100"
  define d :: nat where "d = 2 ^ nat (- e)"
  have d: "0 < d" by (simp add: d_def)
  have rc: "round_cents m e =
      (if 2 * (a mod d) < d then a div d
       else if d < 2 * (a mod d) then a div d + 1
       else if even (a div d) then a div d else a div d + 1)"
    using neg by (simp add: round_cents_def Let_def a_def d_def)
  have ia: "int a = \<bar>m\<bar> * 100" by (simp add: a_def)
  have id: "int d = 2 ^ nat (- e)" by (simp add: d_def)
  from nearest_even [OF d rc, unfolded ia id] show ?thesis .
qed

lemma bit_length_bounds:
  "0 < n \<Longrightarrow> \<exists>k. bit_length n = Suc k \<and> 2 ^ k \<le> n \<and> n < 2 ^ Suc k"
proof (induction n rule: bit_length.induct)
  case (1 n)
  from "1.prems" have b: "bit_length n = Suc (bit_length (n div 2))"
    by (simp add: bit_length.simps [of n])
  show ?case
  proof (cases "n div 2 = 0")
    case True
    with "1.prems" have "n = 1" by presburger
    moreover have "bit_length 0 = 0" by (simp add: bit_length.simps)
    ultimately show ?thesis using b by simp
  next
    case False
    with "1.IH" "1.prems" obtain k where
      k: "bit_length (n div 2) = Suc k" "2 ^ k \<le> n div 2" "n div 2 < 2 ^ Suc k"
      by auto
    from k(2) have "2 * 2 ^ k \<le> n" by linarith
    moreover from k(3) have "n < 2 * 2 ^ Suc k" by linarith
    ultimately show ?thesis using b k(1) by simp
  qed
qed

lemma int_to_float_small:
  assumes "\<bar>n\<bar> < 2 ^ 53"
  shows "int_to_float n = Inr (n, 0)"
proof -
  define a where "a = nat \<bar>n\<bar>"
  from assms have a: "a < 2 ^ 53" by (simp add: a_def nat_less_iff)
  have "bit_length a \<le> 53"
  proof (cases "a = 0")
    case True
    then show ?thesis by (simp add: bit_length.simps)
  next
    case False
    then obtain k where k: "bit_length a = Suc k" "2 ^ k \<le> a"
      using bit_length_bounds [of a] by auto
    from k(2) a have "(2::nat) ^ k < 2 ^ 53" by linarith
    then have "k < 53" by (simp only: power_strict_increasing_iff [of 2] one_less_numeral_iff semiring_norm)
    with k(1) show ?thesis by simp
  qed
  then show ?thesis by (simp add: int_to_float_def Let_def a_def)
qed

lemma int_to_float_large:
  assumes "2 ^ 53 \<le> \<bar>n\<bar>"
  shows "\<exists>q s. 0 < s \<and> 2 ^ 52 \<le> q \<and> q \<le> 2 ^ 53
      \<and> 2 ^ (52 + s) \<le> nat \<bar>n\<bar> \<and> nat \<bar>n\<bar> < 2 ^ (53 + s)
      \<and> 2 * \<bar>int q * 2 ^ s - \<bar>n\<bar>\<bar> \<le> 2 ^ s
      \<and> (2 * \<bar>int q * 2 ^ s - \<bar>n\<bar>\<bar> = 2 ^ s \<longrightarrow> even q)
      \<and> int_to_float n =
          (if (2::nat) ^ 1024 \<le> q * 2 ^ s then Inl OverflowError
           else Inr (if n < 0 then - int q else int q, int s))"
proof -
  define a where "a = nat \<bar>n\<bar>"
  from assms have a: "2 ^ 53 \<le> a" by (simp add: a_def le_nat_iff)
  then have "0 < a" by (simp add: order_less_le_trans [of 0 "2 ^ 53"])
  then obtain k where k: "bit_length a = Suc k" "2 ^ k \<le> a" "a < 2 ^ Suc k"
    using bit_length_bounds [of a] by auto
  from a k(3) have "(2::nat) ^ 53 < 2 ^ Suc k" by linarith
  then have "53 < Suc k" by (simp only: power_strict_increasing_iff [of 2] one_less_numeral_iff semiring_norm)
  define s where "s = Suc k - 53"
  from \<open>53 < Suc k\<close> have s: "0 < s" "k = 52 + s" "Suc k = 53 + s" by (simp_all add: s_def)
  define d :: nat where "d = 2 ^ s"
  have d: "0 < d" by (simp add: d_def)
  define q where "q = (if 2 * (a mod d) < d then a div d
       else if d < 2 * (a mod d) then a div d + 1
       else if even (a div d) then a div d else a div d + 1)"
  have lo: "2 ^ 52 * d \<le> a" using k(2) by (simp add: s(2) d_def power_add)
  have hi: "a < 2 ^ 53 * d" using k(3) by (simp only: s(3) d_def power_add)
  from lo d have q0: "2 ^ 52 \<le> a div d"
    by (simp add: less_eq_div_iff_mult_less_eq)
  from hi d have q1: "a div d < 2 ^ 53"
    by (simp add: div_less_iff_less_mult)
  have qq: "q = a div d \<or> q = a div d + 1" by (simp add: q_def)
  with q0 q1 have qb: "2 ^ 52 \<le> q" "q \<le> 2 ^ 53" by auto
  have big: "(Suc k \<le> 53) = False" using \<open>53 < Suc k\<close> by simp
  have q': "(if 2 * (a mod d) > d \<or> (2 * (a mod d) = d \<and> odd (a div d)) then a div d + 1
             else a div d) = q"
    by (auto simp: q_def)
  have itf: "int_to_float n =
          (if (2::nat) ^ 1024 \<le> q * 2 ^ s then Inl OverflowError
           else Inr (if n < 0 then - int q else int q, int s))"
    by (simp only: int_to_float_def Let_def a_def [symmetric] k(1) big if_False
          s_def [symmetric] d_def [symmetric] q')
  have ia: "int a = \<bar>n\<bar>" by (simp add: a_def)
  have id: "int d = 2 ^ s" by (simp add: d_def)
  note near = nearest_even [OF d q_def, unfolded ia id]
  show ?thesis
  proof (rule exI [of _ q], rule exI [of _ s], intro conjI)
    show "0 < s" by (rule s(1))
    show "2 ^ 52 \<le> q" "q \<le> 2 ^ 53" by (rule qb)+
    show "2 ^ (52 + s) \<le> nat \<bar>n\<bar>" using k(2) by (simp only: s(2) a_def)
    show "nat \<bar>n\<bar> < 2 ^ (53 + s)" using k(3) by (simp only: s(3) a_def)
    show "2 * \<bar>int q * 2 ^ s - \<bar>n\<bar>\<bar> \<le> 2 ^ s" using near by (rule conjunct1)
    show "2 * \<bar>int q * 2 ^ s - \<bar>n\<bar>\<bar> = 2 ^ s \<longrightarrow> even q" using near by (rule conjunct2)
    show "int_to_float n =
          (if (2::nat) ^ 1024 \<le> q * 2 ^ s then Inl OverflowError
           else Inr (if n < 0 then - int q else int q, int s))"
      by (rule itf)
  qed
qed

section \<open>The formatted balance\<close>

lemma float_1234_5:
  assumes "dyadic_eq (m, e) (2469, - 1)"
  shows "round_cents m e = 123450 \<and> 0 \<le> m"
proof (cases "e \<le> - 1")
  case True
  with assms have m: "m = 2469 * 2 ^ nat (- 1 - e)" by (simp add: dyadic_eq_def)
  from True have neg: "e < 0" by simp
  from True have k: "nat (- e) = Suc (nat (- 1 - e))" by simp
  have "nat \<bar>m\<bar> * 100 = 123450 * 2 ^ nat (- e)"
    unfolding m k by (simp add: nat_mult_distrib nat_power_eq abs_mult)
  from round_cents_exact [OF neg this] m show ?thesis by simp
next
  case False
  with assms have "m * 2 ^ nat (e + 1) = 2469" by (simp add: dyadic_eq_def)
  moreover from False have "nat (e + 1) = Suc (nat e)" by simp
  ultimately have "2 * (m * 2 ^ nat e) = 2469" by simp
  then have False by presburger
  then show ?thesis ..
qed

lemma format_1234_50:
  assumes "py_eq v (PFloat 2469 (- 1))"
  shows "format_comma_2f v = Inr ''1,234.50''"
proof (cases v)
  case (PFloat m e)
  with assms have "dyadic_eq (m, e) (2469, - 1)" by (simp add: num_val_def)
  from float_1234_5 [OF this] PFloat show ?thesis
    by (simp add: format_comma_2f_def float_for_format_def and_then_def
          format_float_comma_2f_def nat_digits.simps group3.simps)
next
  case (PInt n)
  with assms have "n * 2 = 2469" by (simp add: num_val_def dyadic_eq_def)
  then have False by presburger
  then show ?thesis ..
next
  case (PBool b)
  with assms show ?thesis by (simp add: num_val_def dyadic_eq_def split: if_splits)
qed (use assms in \<open>simp_all add: num_val_def\<close>)

lemma cents_digits:
  "list_all is_digit [''0123456789'' ! (c div 10 mod 10), ''0123456789'' ! (c mod 10)]
   \<and> decimal_value (nat_digits (c div 100)
        @ [''0123456789'' ! (c div 10 mod 10), ''0123456789'' ! (c mod 10)]) = c"
proof -
  define d1 where "d1 = ''0123456789'' ! (c div 10 mod 10)"
  define d2 where "d2 = ''0123456789'' ! (c mod 10)"
  have "c div 10 mod 10 < 10" by simp
  from digit_char [OF this]
  have v1: "is_digit d1" "(of_char d1 :: nat) - 48 = c div 10 mod 10"
    by (simp_all add: d1_def)
  have "c mod 10 < 10" by simp
  from digit_char [OF this]
  have v2: "is_digit d2" "(of_char d2 :: nat) - 48 = c mod 10"
    by (simp_all add: d2_def)
  have "decimal_value (nat_digits (c div 100) @ [d1, d2])
      = decimal_value ((nat_digits (c div 100) @ [d1]) @ [d2])"
    by simp
  also have "\<dots> = 10 * decimal_value (nat_digits (c div 100) @ [d1]) + (of_char d2 - 48)"
    by (rule decimal_value_snoc)
  also have "\<dots> = 10 * (10 * decimal_value (nat_digits (c div 100)) + (of_char d1 - 48))
      + (of_char d2 - 48)"
    by (simp only: decimal_value_snoc)
  also have "\<dots> = 10 * (10 * (c div 100) + c div 10 mod 10) + c mod 10"
    by (simp only: nat_digits_value v1(2) v2(2))
  also have "\<dots> = c"
  proof -
    have e1: "c div 100 = c div 10 div 10" by (simp add: div_mult2_eq)
    have e2: "10 * (c div 10 div 10) + c div 10 mod 10 = c div 10" by (rule mult_div_mod_eq)
    have e3: "10 * (c div 10) + c mod 10 = c" by (rule mult_div_mod_eq)
    show ?thesis by (simp only: e1 e2 e3)
  qed
  finally have "decimal_value (nat_digits (c div 100) @ [d1, d2]) = c" .
  with v1(1) v2(1) show ?thesis
    unfolding d1_def d2_def by simp
qed

lemma get_formatted_balance_absent:
  "get_account md account_number = Inr [] \<Longrightarrow>
     get_formatted_balance lib md account_number = Inr ''Account not found''"
  by (simp add: get_formatted_balance_def and_then_def)

lemma get_formatted_balance_record:
  assumes "map_of (accounts md) a = Some account" "account \<noteq> []"
    and "(case map_of account ''currency'' of None \<Rightarrow> PStr ''USD'' | Some v \<Rightarrow> v) = PStr code"
  shows "get_formatted_balance lib md (PStr a)
      = (case format_comma_2f (case map_of account ''balance'' of None \<Rightarrow> PInt 0 | Some v \<Rightarrow> v) of
           Inl err \<Rightarrow> Inl err
         | Inr digits \<Rightarrow>
             Inr ((case (case map_of (case map_of (currencies md) code of None \<Rightarrow> [] | Some c \<Rightarrow> c)
                                ''symbol'' of None \<Rightarrow> PStr ''$'' | Some v \<Rightarrow> v) of
                     PStr s \<Rightarrow> s
                   | v \<Rightarrow> repr lib v) @ digits))"
  using assms
  by (simp add: get_formatted_balance_def get_account_def get_currency_details_def
        table_get_def and_then_def py_str_def dict_get_def Let_def
      split: sum.splits pyval.splits)

lemma format_float_shape:
  "\<exists>whole cents.
      format_comma_2f (PFloat m e)
        = Inr ((if m < 0 then ''-'' else '''') @ group3 whole @ ''.'' @ cents)
    \<and> whole \<noteq> [] \<and> list_all is_digit whole
    \<and> (whole = ''0'' \<or> hd whole \<noteq> CHR ''0'')
    \<and> length cents = 2 \<and> list_all is_digit cents
    \<and> decimal_value (whole @ cents) = round_cents m e
    \<and> filter (\<lambda>c. c \<noteq> CHR '','') (group3 whole) = whole
    \<and> length (group3 whole) mod 4 \<noteq> 0
    \<and> (\<forall>i < length (group3 whole).
          (group3 whole ! i = CHR '','') = ((length (group3 whole) - i) mod 4 = 0))"
proof -
  define c where "c = round_cents m e"
  define whole where "whole = nat_digits (c div 100)"
  define cents where "cents = [''0123456789'' ! (c div 10 mod 10), ''0123456789'' ! (c mod 10)]"
  have fmt: "format_comma_2f (PFloat m e)
      = Inr ((if m < 0 then ''-'' else '''') @ group3 whole @ ''.'' @ cents)"
    by (simp add: format_comma_2f_def float_for_format_def and_then_def
        format_float_comma_2f_def Let_def c_def whole_def cents_def)
  have digits: "list_all is_digit whole" unfolding whole_def by (rule nat_digits_digits)
  have nocomma: "CHR '','' \<notin> set whole"
  proof
    assume "CHR '','' \<in> set whole"
    with digits have "is_digit CHR '',''" by (simp add: list_all_iff)
    then show False by (simp add: is_digit_def)
  qed
  have "filter (\<lambda>c. c \<noteq> CHR '','') whole = whole"
    using nocomma by (induction whole) auto
  then have flt: "filter (\<lambda>c. c \<noteq> CHR '','') (group3 whole) = whole"
    by (simp only: group3_filter)
  have commas: "\<forall>i < length (group3 whole).
      (group3 whole ! i = CHR '','') = ((length (group3 whole) - i) mod 4 = 0)"
    using group3_commas [OF nocomma] by blast
  have nonempty: "whole \<noteq> []" unfolding whole_def by (rule nat_digits_nonempty)
  have leading: "whole = ''0'' \<or> hd whole \<noteq> CHR ''0''"
    unfolding whole_def by (rule nat_digits_leading)
  have two: "length cents = 2" by (simp add: cents_def)
  have cdigits: "list_all is_digit cents"
    unfolding cents_def using cents_digits [of c] by (rule conjunct1)
  have val: "decimal_value (whole @ cents) = round_cents m e"
    unfolding whole_def cents_def using cents_digits [of c] by (simp only: c_def)
  have first: "length (group3 whole) mod 4 \<noteq> 0"
    using nonempty by (rule group3_length_mod)
  show ?thesis
  proof (rule exI [of _ whole], rule exI [of _ cents], intro conjI)
    show "format_comma_2f (PFloat m e)
        = Inr ((if m < 0 then ''-'' else '''') @ group3 whole @ ''.'' @ cents)"
      by (rule fmt)
    show "whole \<noteq> []" by (rule nonempty)
    show "list_all is_digit whole" by (rule digits)
    show "whole = ''0'' \<or> hd whole \<noteq> CHR ''0''" by (rule leading)
    show "length cents = 2" by (rule two)
    show "list_all is_digit cents" by (rule cdigits)
    show "decimal_value (whole @ cents) = round_cents m e" by (rule val)
    show "filter (\<lambda>c. c \<noteq> CHR '','') (group3 whole) = whole" by (rule flt)
    show "length (group3 whole) mod 4 \<noteq> 0" by (rule first)
    show "\<forall>i < length (group3 whole).
              (group3 whole ! i = CHR '','') = ((length (group3 whole) - i) mod 4 = 0)"
      by (rule commas)
  qed
qed

lemma format_int_small:
  "\<bar>n\<bar> < 2 ^ 53 \<Longrightarrow> format_comma_2f (PInt n) = format_comma_2f (PFloat n 0)"
  by (simp only: format_comma_2f_def float_for_format_def pyval.case int_to_float_small)

lemma format_int_large:
  assumes "2 ^ 53 \<le> \<bar>n\<bar>"
  shows "\<exists>q s. 0 < s \<and> 2 ^ 52 \<le> q \<and> q \<le> 2 ^ 53
      \<and> 2 ^ (52 + s) \<le> \<bar>n\<bar> \<and> \<bar>n\<bar> < 2 ^ (53 + s)
      \<and> 2 * \<bar>int q * 2 ^ s - \<bar>n\<bar>\<bar> \<le> 2 ^ s
      \<and> (2 * \<bar>int q * 2 ^ s - \<bar>n\<bar>\<bar> = 2 ^ s \<longrightarrow> even q)
      \<and> format_comma_2f (PInt n) =
          (if (2::nat) ^ 1024 \<le> q * 2 ^ s then Inl OverflowError
           else format_comma_2f (PFloat (if n < 0 then - int q else int q) (int s)))"
proof -
  from int_to_float_large [OF assms] obtain q s where
    h: "0 < s" "2 ^ 52 \<le> q" "q \<le> 2 ^ 53"
      "2 ^ (52 + s) \<le> nat \<bar>n\<bar>" "nat \<bar>n\<bar> < 2 ^ (53 + s)"
      "2 * \<bar>int q * 2 ^ s - \<bar>n\<bar>\<bar> \<le> 2 ^ s"
      "2 * \<bar>int q * 2 ^ s - \<bar>n\<bar>\<bar> = 2 ^ s \<longrightarrow> even q"
      "int_to_float n =
          (if (2::nat) ^ 1024 \<le> q * 2 ^ s then Inl OverflowError
           else Inr (if n < 0 then - int q else int q, int s))"
    by blast
  from h(4) have lo: "2 ^ (52 + s) \<le> \<bar>n\<bar>"
    by (metis le_nat_iff abs_ge_zero of_nat_numeral of_nat_power)
  from h(5) have hi: "\<bar>n\<bar> < 2 ^ (53 + s)"
    by (metis nat_less_iff abs_ge_zero of_nat_numeral of_nat_power)
  have fmt: "format_comma_2f (PInt n) =
          (if (2::nat) ^ 1024 \<le> q * 2 ^ s then Inl OverflowError
           else format_comma_2f (PFloat (if n < 0 then - int q else int q) (int s)))"
    by (simp only: format_comma_2f_def float_for_format_def pyval.case h(8) and_then_def
          if_distrib [of "\<lambda>x. case x of Inl e \<Rightarrow> Inl e | Inr v \<Rightarrow> _ v"] sum.case)
  show ?thesis
  proof (rule exI [of _ q], rule exI [of _ s], intro conjI)
    show "0 < s" "2 ^ 52 \<le> q" "q \<le> 2 ^ 53" by (rule h)+
    show "2 ^ (52 + s) \<le> \<bar>n\<bar>" by (rule lo)
    show "\<bar>n\<bar> < 2 ^ (53 + s)" by (rule hi)
    show "2 * \<bar>int q * 2 ^ s - \<bar>n\<bar>\<bar> \<le> 2 ^ s" by (rule h(6))
    show "2 * \<bar>int q * 2 ^ s - \<bar>n\<bar>\<bar> = 2 ^ s \<longrightarrow> even q" by (rule h(7))
    show "format_comma_2f (PInt n) =
          (if (2::nat) ^ 1024 \<le> q * 2 ^ s then Inl OverflowError
           else format_comma_2f (PFloat (if n < 0 then - int q else int q) (int s)))"
      by (rule fmt)
  qed
qed

lemma format_other:
  "format_comma_2f (PBool True) = Inr ''1.00''"
  "format_comma_2f (PBool False) = Inr ''0.00''"
  "format_comma_2f (PStr s) = Inl ValueError"
  "format_comma_2f PNone = Inl TypeError"
  "format_comma_2f (PList xs) = Inl TypeError"
  "format_comma_2f (PDict d) = Inl TypeError"
  by (simp_all add: format_comma_2f_def float_for_format_def and_then_def
        format_float_comma_2f_def round_cents_def nat_digits.simps group3.simps)

lemma format_big_int:
  "format_comma_2f (PInt 9007199254740993) = Inr ''9,007,199,254,740,992.00''"
proof -
  have b: "bit_length 9007199254740993 = 54"
    by (simp add: bit_length.simps)
  have f: "int_to_float 9007199254740993 = Inr (4503599627370496, 1)"
    by (simp add: int_to_float_def Let_def b)
  have c: "round_cents 4503599627370496 1 = 900719925474099200"
    by (simp add: round_cents_def)
  have d: "nat_digits 9007199254740992 = ''9007199254740992''"
    by (simp add: nat_digits.simps)
  have g: "group3 ''9007199254740992'' = ''9,007,199,254,740,992''"
    by (simp add: group3.simps)
  have "format_float_comma_2f 4503599627370496 1 = ''9,007,199,254,740,992.00''"
    by (simp add: format_float_comma_2f_def c d g)
  with f show ?thesis
    by (simp add: format_comma_2f_def float_for_format_def and_then_def)
qed

text \<open>
  C8. \<open>get_formatted_balance\<close> returns the fixed text \<open>Account not found\<close> when
  the accounts collection has no record for the account number. For a record, with
  the currency code \<open>USD\<close>, the symbol \<open>$\<close> and the balance 0 where the data
  have none, it returns the text of the symbol followed by the balance in the format
  \<open>,.2f\<close>, or raises what the formatting raises. The balances of the data file are
  taken to be finite floats other than negative zero, ints or bools: a float
  \<open>m * 2 ^ e\<close> is printed as a minus sign when negative, the whole part in digits
  without a leading zero, a comma before every group of three digits counted from the
  right and nowhere else, so never in front, a point and two digits; the digits read
  back give the hundredths nearest to the balance, the even one of two that are
  equally near. An int below \<open>2 ^ 53\<close> in size is printed as the float of the same
  value; a larger int is first rounded to the nearest float, that is to 53 significant
  bits, to even on a tie, and raises \<open>OverflowError\<close> when that is no double; \<open>True\<close>
  and \<open>False\<close> are printed as \<open>1.00\<close> and \<open>0.00\<close>; a string raises
  \<open>ValueError\<close>, and \<open>None\<close>, a list or a dictionary \<open>TypeError\<close>. In
  particular a balance equal to 1234.5 in USD with the symbol \<open>$\<close> gives exactly
  \<open>$1,234.50\<close>.
\<close>

theorem get_formatted_balance_format:
  "(map_of (accounts md) a = None \<longrightarrow>
      get_formatted_balance lib md (PStr a) = Inr ''Account not found'')
   \<and> (map_of (accounts md) a = Some account \<and> account \<noteq> []
      \<and> (case map_of account ''currency'' of None \<Rightarrow> PStr ''USD'' | Some v \<Rightarrow> v) = PStr code \<longrightarrow>
      get_formatted_balance lib md (PStr a)
        = (case format_comma_2f (case map_of account ''balance'' of None \<Rightarrow> PInt 0 | Some v \<Rightarrow> v) of
             Inl err \<Rightarrow> Inl err
           | Inr digits \<Rightarrow>
               Inr ((case (case map_of (case map_of (currencies md) code of None \<Rightarrow> [] | Some c \<Rightarrow> c)
                                  ''symbol'' of None \<Rightarrow> PStr ''$'' | Some v \<Rightarrow> v) of
                       PStr s \<Rightarrow> s
                     | v \<Rightarrow> repr lib v) @ digits)))
   \<and> (\<exists>whole cents.
          format_comma_2f (PFloat m e)
            = Inr ((if m < 0 then ''-'' else '''') @ group3 whole @ ''.'' @ cents)
        \<and> whole \<noteq> [] \<and> list_all is_digit whole
        \<and> (whole = ''0'' \<or> hd whole \<noteq> CHR ''0'')
        \<and> length cents = 2 \<and> list_all is_digit cents
        \<and> decimal_value (whole @ cents) = round_cents m e
        \<and> filter (\<lambda>c. c \<noteq> CHR '','') (group3 whole) = whole
        \<and> length (group3 whole) mod 4 \<noteq> 0
        \<and> (\<forall>i < length (group3 whole).
              (group3 whole ! i = CHR '','') = ((length (group3 whole) - i) mod 4 = 0))
        \<and> (0 \<le> e \<longrightarrow> int (round_cents m e) = \<bar>m\<bar> * 100 * 2 ^ nat e)
        \<and> (e < 0 \<longrightarrow>
              2 * \<bar>int (round_cents m e) * 2 ^ nat (- e) - \<bar>m\<bar> * 100\<bar> \<le> 2 ^ nat (- e))
        \<and> (e < 0 \<and> 2 * \<bar>int (round_cents m e) * 2 ^ nat (- e) - \<bar>m\<bar> * 100\<bar> = 2 ^ nat (- e)
              \<longrightarrow> even (round_cents m e)))
   \<and> (\<bar>n\<bar> < 2 ^ 53 \<longrightarrow> format_comma_2f (PInt n) = format_comma_2f (PFloat n 0))
   \<and> (2 ^ 53 \<le> \<bar>n\<bar> \<longrightarrow>
        (\<exists>q s. 0 < s \<and> 2 ^ 52 \<le> q \<and> q \<le> 2 ^ 53
          \<and> 2 ^ (52 + s) \<le> \<bar>n\<bar> \<and> \<bar>n\<bar> < 2 ^ (53 + s)
          \<and> 2 * \<bar>int q * 2 ^ s - \<bar>n\<bar>\<bar> \<le> 2 ^ s
          \<and> (2 * \<bar>int q * 2 ^ s - \<bar>n\<bar>\<bar> = 2 ^ s \<longrightarrow> even q)
          \<and> format_comma_2f (PInt n) =
              (if (2::nat) ^ 1024 \<le> q * 2 ^ s then Inl OverflowError
               else format_comma_2f (PFloat (if n < 0 then - int q else int q) (int s)))))
   \<and> format_comma_2f (PBool True) = Inr ''1.00''
   \<and> format_comma_2f (PBool False) = Inr ''0.00''
   \<and> format_comma_2f (PStr t) = Inl ValueError
   \<and> format_comma_2f PNone = Inl TypeError
   \<and> format_comma_2f (PList xs) = Inl TypeError
   \<and> format_comma_2f (PDict d) = Inl TypeError
   \<and> (map_of (accounts md) a = Some account
      \<and> map_of account ''balance'' = Some balance \<and> py_eq balance (PFloat 2469 (- 1))
      \<and> map_of account ''currency'' = Some (PStr ''USD'')
      \<and> map_of (currencies md) ''USD'' = Some currency
      \<and> map_of currency ''symbol'' = Some (PStr ''$'') \<longrightarrow>
      get_formatted_balance lib md (PStr a) = Inr ''$1,234.50'')"
proof (intro conjI impI)
  assume "map_of (accounts md) a = None"
  then have "get_account md (PStr a) = Inr []"
    by (simp add: get_account_def table_get_def)
  then show "get_formatted_balance lib md (PStr a) = Inr ''Account not found''"
    by (rule get_formatted_balance_absent)
next
  assume h: "map_of (accounts md) a = Some account \<and> account \<noteq> []
      \<and> (case map_of account ''currency'' of None \<Rightarrow> PStr ''USD'' | Some v \<Rightarrow> v) = PStr code"
  then have h1: "map_of (accounts md) a = Some account" and h2: "account \<noteq> []"
    and h3: "(case map_of account ''currency'' of None \<Rightarrow> PStr ''USD'' | Some v \<Rightarrow> v) = PStr code"
    by simp_all
  from h1 h2 h3
  show "get_formatted_balance lib md (PStr a)
        = (case format_comma_2f (case map_of account ''balance'' of None \<Rightarrow> PInt 0 | Some v \<Rightarrow> v) of
             Inl err \<Rightarrow> Inl err
           | Inr digits \<Rightarrow>
               Inr ((case (case map_of (case map_of (currencies md) code of None \<Rightarrow> [] | Some c \<Rightarrow> c)
                                  ''symbol'' of None \<Rightarrow> PStr ''$'' | Some v \<Rightarrow> v) of
                       PStr s \<Rightarrow> s
                     | v \<Rightarrow> repr lib v) @ digits))"
    by (rule get_formatted_balance_record)
next
  from format_float_shape [of m e] obtain whole cents where
    s: "format_comma_2f (PFloat m e)
            = Inr ((if m < 0 then ''-'' else '''') @ group3 whole @ ''.'' @ cents)"
      "whole \<noteq> []" "list_all is_digit whole"
      "whole = ''0'' \<or> hd whole \<noteq> CHR ''0''"
      "length cents = 2" "list_all is_digit cents"
      "decimal_value (whole @ cents) = round_cents m e"
      "filter (\<lambda>c. c \<noteq> CHR '','') (group3 whole) = whole"
      "length (group3 whole) mod 4 \<noteq> 0"
      "\<forall>i < length (group3 whole).
              (group3 whole ! i = CHR '','') = ((length (group3 whole) - i) mod 4 = 0)"
    by blast
  note bound = round_cents_bound [of e m]
  show "\<exists>whole cents.
          format_comma_2f (PFloat m e)
            = Inr ((if m < 0 then ''-'' else '''') @ group3 whole @ ''.'' @ cents)
        \<and> whole \<noteq> [] \<and> list_all is_digit whole
        \<and> (whole = ''0'' \<or> hd whole \<noteq> CHR ''0'')
        \<and> length cents = 2 \<and> list_all is_digit cents
        \<and> decimal_value (whole @ cents) = round_cents m e
        \<and> filter (\<lambda>c. c \<noteq> CHR '','') (group3 whole) = whole
        \<and> length (group3 whole) mod 4 \<noteq> 0
        \<and> (\<forall>i < length (group3 whole).
              (group3 whole ! i = CHR '','') = ((length (group3 whole) - i) mod 4 = 0))
        \<and> (0 \<le> e \<longrightarrow> int (round_cents m e) = \<bar>m\<bar> * 100 * 2 ^ nat e)
        \<and> (e < 0 \<longrightarrow>
              2 * \<bar>int (round_cents m e) * 2 ^ nat (- e) - \<bar>m\<bar> * 100\<bar> \<le> 2 ^ nat (- e))
        \<and> (e < 0 \<and> 2 * \<bar>int (round_cents m e) * 2 ^ nat (- e) - \<bar>m\<bar> * 100\<bar> = 2 ^ nat (- e)
              \<longrightarrow> even (round_cents m e))"
  proof (rule exI [of _ whole], rule exI [of _ cents], intro conjI)
    show "format_comma_2f (PFloat m e)
            = Inr ((if m < 0 then ''-'' else '''') @ group3 whole @ ''.'' @ cents)"
      by (rule s(1))
    show "whole \<noteq> []" by (rule s(2))
    show "list_all is_digit whole" by (rule s(3))
    show "whole = ''0'' \<or> hd whole \<noteq> CHR ''0''" by (rule s(4))
    show "length cents = 2" by (rule s(5))
    show "list_all is_digit cents" by (rule s(6))
    show "decimal_value (whole @ cents) = round_cents m e" by (rule s(7))
    show "filter (\<lambda>c. c \<noteq> CHR '','') (group3 whole) = whole" by (rule s(8))
    show "length (group3 whole) mod 4 \<noteq> 0" by (rule s(9))
    show "\<forall>i < length (group3 whole).
              (group3 whole ! i = CHR '','') = ((length (group3 whole) - i) mod 4 = 0)"
      by (rule s(10))
    show "0 \<le> e \<longrightarrow> int (round_cents m e) = \<bar>m\<bar> * 100 * 2 ^ nat e"
      using bound by (rule conjunct1)
    show "e < 0 \<longrightarrow>
              2 * \<bar>int (round_cents m e) * 2 ^ nat (- e) - \<bar>m\<bar> * 100\<bar> \<le> 2 ^ nat (- e)"
      using bound by (rule conjunct2)
    show "e < 0 \<and> 2 * \<bar>int (round_cents m e) * 2 ^ nat (- e) - \<bar>m\<bar> * 100\<bar> = 2 ^ nat (- e)
              \<longrightarrow> even (round_cents m e)"
      using round_cents_nearest [of e m] by blast
  qed
next
  assume "\<bar>n\<bar> < 2 ^ 53"
  then show "format_comma_2f (PInt n) = format_comma_2f (PFloat n 0)"
    by (rule format_int_small)
next
  assume "2 ^ 53 \<le> \<bar>n\<bar>"
  then show "\<exists>q s. 0 < s \<and> 2 ^ 52 \<le> q \<and> q \<le> 2 ^ 53
          \<and> 2 ^ (52 + s) \<le> \<bar>n\<bar> \<and> \<bar>n\<bar> < 2 ^ (53 + s)
          \<and> 2 * \<bar>int q * 2 ^ s - \<bar>n\<bar>\<bar> \<le> 2 ^ s
          \<and> (2 * \<bar>int q * 2 ^ s - \<bar>n\<bar>\<bar> = 2 ^ s \<longrightarrow> even q)
          \<and> format_comma_2f (PInt n) =
              (if (2::nat) ^ 1024 \<le> q * 2 ^ s then Inl OverflowError
               else format_comma_2f (PFloat (if n < 0 then - int q else int q) (int s)))"
    by (rule format_int_large)
next
  show "format_comma_2f (PBool True) = Inr ''1.00''" by (rule format_other)
  show "format_comma_2f (PBool False) = Inr ''0.00''" by (rule format_other)
  show "format_comma_2f (PStr t) = Inl ValueError" by (rule format_other)
  show "format_comma_2f PNone = Inl TypeError" by (rule format_other)
  show "format_comma_2f (PList xs) = Inl TypeError" by (rule format_other)
  show "format_comma_2f (PDict d) = Inl TypeError" by (rule format_other)
next
  assume h: "map_of (accounts md) a = Some account
      \<and> map_of account ''balance'' = Some balance \<and> py_eq balance (PFloat 2469 (- 1))
      \<and> map_of account ''currency'' = Some (PStr ''USD'')
      \<and> map_of (currencies md) ''USD'' = Some currency
      \<and> map_of currency ''symbol'' = Some (PStr ''$'')"
  then have ne: "account \<noteq> []" by auto
  from h have fmt: "format_comma_2f balance = Inr ''1,234.50''"
    by (simp add: format_1234_50)
  show "get_formatted_balance lib md (PStr a) = Inr ''$1,234.50''"
    using h ne fmt
    by (simp add: get_formatted_balance_def get_account_def get_currency_details_def
          table_get_def and_then_def dict_get_def py_str_def)
qed


theorem get_formatted_balance_format_witness:
  "get_formatted_balance example_lib example_data (PStr ''00000'') = Inr ''Account not found''
   \<and> get_formatted_balance example_lib example_data (PStr ''12345'') = Inr ''$500.00''
   \<and> get_formatted_balance example_lib example_sparse (PStr ''13579'') = Inr ''$0.00''
   \<and> get_formatted_balance example_lib example_sparse (PStr ''24680'')
       = Inr ''$9,007,199,254,740,992.00''
   \<and> (\<exists>whole cents.
          format_comma_2f (PFloat 2469 (- 1)) = Inr (group3 whole @ ''.'' @ cents)
        \<and> length cents = 2
        \<and> decimal_value (whole @ cents) = 123450
        \<and> filter (\<lambda>c. c \<noteq> CHR '','') (group3 whole) = whole
        \<and> length (group3 whole) mod 4 \<noteq> 0)
   \<and> format_comma_2f (PInt 500) = format_comma_2f (PFloat 500 0)
   \<and> (\<exists>q s. 0 < s \<and> 2 ^ 52 \<le> q \<and> q \<le> 2 ^ 53
          \<and> 2 * \<bar>int q * 2 ^ s - 9007199254740993\<bar> \<le> 2 ^ s
          \<and> (2 * \<bar>int q * 2 ^ s - 9007199254740993\<bar> = 2 ^ s \<longrightarrow> even q)
          \<and> format_comma_2f (PInt 9007199254740993) =
              (if (2::nat) ^ 1024 \<le> q * 2 ^ s then Inl OverflowError
               else format_comma_2f (PFloat (int q) (int s))))
   \<and> get_formatted_balance example_lib example_data (PStr ''67890'') = Inr ''$1,234.50''"
proof -
  let ?fixture = "[(''pin'', PStr ''0000''),
             (''balance'', PFloat 500 0),
             (''currency'', PStr ''USD''),
             (''account_type'', PStr ''savings''),
             (''account_holder'', PStr ''Test Holder''),
             (''account_status'', PStr ''active''),
             (''last_transaction'', PStr ''2024-01-15'')]"
  let ?account = "[(''pin'', PStr ''4321''),
             (''balance'', PFloat 2469 (- 1)),
             (''currency'', PStr ''USD''),
             (''account_type'', PStr ''savings''),
             (''account_holder'', PStr ''Other Holder''),
             (''account_status'', PStr ''frozen''),
             (''last_transaction'', PStr ''2024-02-01'')]"
  let ?currency = "[(''symbol'', PStr ''$''), (''name'', PStr ''US Dollar'')]"
  note absent = get_formatted_balance_format
    [where md = example_data and lib = example_lib and a = "''00000''", THEN conjunct1]
  note fixture = get_formatted_balance_format
    [where md = example_data and lib = example_lib and a = "''12345''" and account = ?fixture
       and code = "''USD''", THEN conjunct2, THEN conjunct1]
  note bare = get_formatted_balance_format
    [where md = example_sparse and lib = example_lib and a = "''13579''"
       and account = "[(''pin'', PStr ''1111'')]" and code = "''USD''",
     THEN conjunct2, THEN conjunct1]
  note big = get_formatted_balance_format
    [where md = example_sparse and lib = example_lib and a = "''24680''"
       and account = "[(''balance'', PInt 9007199254740993)]" and code = "''USD''",
     THEN conjunct2, THEN conjunct1]
  note present = get_formatted_balance_format
    [where md = example_data and lib = example_lib and a = "''67890''" and account = ?account
       and m = 2469 and e = "- 1" and n = 500
       and balance = "PFloat 2469 (- 1)" and currency = ?currency, THEN conjunct2, THEN conjunct2]
  note shape = present [THEN conjunct1]
  note small = present [THEN conjunct2, THEN conjunct1]
  note large = get_formatted_balance_format
    [where n = 9007199254740993, THEN conjunct2, THEN conjunct2, THEN conjunct2,
     THEN conjunct2, THEN conjunct1]
  note known = present [THEN conjunct2, THEN conjunct2, THEN conjunct2, THEN conjunct2,
     THEN conjunct2, THEN conjunct2, THEN conjunct2, THEN conjunct2, THEN conjunct2]
  have a: "map_of (accounts example_data) ''00000'' = None"
    by (simp add: example_data_def)
  have b: "map_of (accounts example_data) ''12345'' = Some ?fixture \<and> ?fixture \<noteq> []
      \<and> (case map_of ?fixture ''currency'' of None \<Rightarrow> PStr ''USD'' | Some v \<Rightarrow> v) = PStr ''USD''"
    by (simp add: example_data_def)
  have c: "map_of (accounts example_data) ''67890'' = Some ?account
      \<and> map_of ?account ''balance'' = Some (PFloat 2469 (- 1))
      \<and> py_eq (PFloat 2469 (- 1)) (PFloat 2469 (- 1))
      \<and> map_of ?account ''currency'' = Some (PStr ''USD'')
      \<and> map_of (currencies example_data) ''USD'' = Some ?currency
      \<and> map_of ?currency ''symbol'' = Some (PStr ''$'')"
    by (simp add: example_data_def num_val_def dyadic_eq_def)
  have d: "map_of (accounts example_sparse) ''13579'' = Some [(''pin'', PStr ''1111'')]
      \<and> [(''pin'', PStr ''1111'')] \<noteq> []
      \<and> (case map_of [(''pin'', PStr ''1111'')] ''currency'' of
            None \<Rightarrow> PStr ''USD'' | Some v \<Rightarrow> v) = PStr ''USD''"
    by (simp add: example_sparse_def)
  have e: "map_of (accounts example_sparse) ''24680'' = Some [(''balance'', PInt 9007199254740993)]
      \<and> [(''balance'', PInt 9007199254740993)] \<noteq> []
      \<and> (case map_of [(''balance'', PInt 9007199254740993)] ''currency'' of
            None \<Rightarrow> PStr ''USD'' | Some v \<Rightarrow> v) = PStr ''USD''"
    by (simp add: example_sparse_def)
  have r: "round_cents 2469 (- 1) = 123450"
    by (simp add: round_cents_def)
  have f500: "format_comma_2f (PFloat 500 0) = Inr ''500.00''"
    by (rule format_500) (simp add: num_val_def dyadic_eq_def)
  have f0: "format_comma_2f (PInt 0) = Inr ''0.00''"
    by (simp add: format_comma_2f_def float_for_format_def int_to_float_def bit_length.simps
          and_then_def format_float_comma_2f_def round_cents_def nat_digits.simps group3.simps)
  show ?thesis
  proof (intro conjI)
    from absent a
    show "get_formatted_balance example_lib example_data (PStr ''00000'')
        = Inr ''Account not found''"
      by (rule mp)
    from fixture b
    have "get_formatted_balance example_lib example_data (PStr ''12345'')
        = (case format_comma_2f (case map_of ?fixture ''balance'' of
                                   None \<Rightarrow> PInt 0 | Some v \<Rightarrow> v) of
             Inl err \<Rightarrow> Inl err
           | Inr digits \<Rightarrow>
               Inr ((case (case map_of (case map_of (currencies example_data) ''USD'' of
                                          None \<Rightarrow> [] | Some c \<Rightarrow> c)
                                  ''symbol'' of None \<Rightarrow> PStr ''$'' | Some v \<Rightarrow> v) of
                       PStr s \<Rightarrow> s
                     | v \<Rightarrow> repr example_lib v) @ digits))"
      by (rule mp)
    then show "get_formatted_balance example_lib example_data (PStr ''12345'') = Inr ''$500.00''"
      by (simp add: f500 example_data_def)
    from bare d
    have "get_formatted_balance example_lib example_sparse (PStr ''13579'')
        = (case format_comma_2f (case map_of [(''pin'', PStr ''1111'')] ''balance'' of
                                   None \<Rightarrow> PInt 0 | Some v \<Rightarrow> v) of
             Inl err \<Rightarrow> Inl err
           | Inr digits \<Rightarrow>
               Inr ((case (case map_of (case map_of (currencies example_sparse) ''USD'' of
                                          None \<Rightarrow> [] | Some c \<Rightarrow> c)
                                  ''symbol'' of None \<Rightarrow> PStr ''$'' | Some v \<Rightarrow> v) of
                       PStr s \<Rightarrow> s
                     | v \<Rightarrow> repr example_lib v) @ digits))"
      by (rule mp)
    then show "get_formatted_balance example_lib example_sparse (PStr ''13579'') = Inr ''$0.00''"
      by (simp add: f0 example_sparse_def)
    from big e
    have "get_formatted_balance example_lib example_sparse (PStr ''24680'')
        = (case format_comma_2f (case map_of [(''balance'', PInt 9007199254740993)] ''balance'' of
                                   None \<Rightarrow> PInt 0 | Some v \<Rightarrow> v) of
             Inl err \<Rightarrow> Inl err
           | Inr digits \<Rightarrow>
               Inr ((case (case map_of (case map_of (currencies example_sparse) ''USD'' of
                                          None \<Rightarrow> [] | Some c \<Rightarrow> c)
                                  ''symbol'' of None \<Rightarrow> PStr ''$'' | Some v \<Rightarrow> v) of
                       PStr s \<Rightarrow> s
                     | v \<Rightarrow> repr example_lib v) @ digits))"
      by (rule mp)
    then show "get_formatted_balance example_lib example_sparse (PStr ''24680'')
        = Inr ''$9,007,199,254,740,992.00''"
      by (simp add: format_big_int example_sparse_def)
    from shape obtain whole cents where
      "format_comma_2f (PFloat 2469 (- 1))
            = Inr ((if (2469::int) < 0 then ''-'' else '''') @ group3 whole @ ''.'' @ cents)"
      "length cents = 2"
      "decimal_value (whole @ cents) = round_cents 2469 (- 1)"
      "filter (\<lambda>c. c \<noteq> CHR '','') (group3 whole) = whole"
      "length (group3 whole) mod 4 \<noteq> 0"
      by blast
    then show "\<exists>whole cents.
          format_comma_2f (PFloat 2469 (- 1)) = Inr (group3 whole @ ''.'' @ cents)
        \<and> length cents = 2
        \<and> decimal_value (whole @ cents) = 123450
        \<and> filter (\<lambda>c. c \<noteq> CHR '','') (group3 whole) = whole
        \<and> length (group3 whole) mod 4 \<noteq> 0"
      unfolding r by auto
    from small show "format_comma_2f (PInt 500) = format_comma_2f (PFloat 500 0)"
      by simp
    have "(2::int) ^ 53 \<le> \<bar>9007199254740993\<bar>" by simp
    with large obtain q s where
      "0 < s" "2 ^ 52 \<le> q" "q \<le> 2 ^ 53"
      "2 * \<bar>int q * 2 ^ s - \<bar>9007199254740993\<bar>\<bar> \<le> 2 ^ s"
      "2 * \<bar>int q * 2 ^ s - \<bar>9007199254740993\<bar>\<bar> = 2 ^ s \<longrightarrow> even q"
      "format_comma_2f (PInt 9007199254740993) =
              (if (2::nat) ^ 1024 \<le> q * 2 ^ s then Inl OverflowError
               else format_comma_2f
                 (PFloat (if (9007199254740993::int) < 0 then - int q else int q) (int s)))"
      by blast
    then show "\<exists>q s. 0 < s \<and> 2 ^ 52 \<le> q \<and> q \<le> 2 ^ 53
          \<and> 2 * \<bar>int q * 2 ^ s - 9007199254740993\<bar> \<le> 2 ^ s
          \<and> (2 * \<bar>int q * 2 ^ s - 9007199254740993\<bar> = 2 ^ s \<longrightarrow> even q)
          \<and> format_comma_2f (PInt 9007199254740993) =
              (if (2::nat) ^ 1024 \<le> q * 2 ^ s then Inl OverflowError
               else format_comma_2f (PFloat (int q) (int s)))"
      by (intro exI [of _ q] exI [of _ s]) simp
    from known c
    show "get_formatted_balance example_lib example_data (PStr ''67890'') = Inr ''$1,234.50''"
      by (rule mp)
  qed
qed

end
